theory Spec2Isabelle
  imports Main "HOL-Library.AList"
begin

section \<open>The splice-orchestrator plugin: state, exceptions, collaborators\<close>

text \<open>
  A shallow embedding of \<^verbatim>\<open>jac_splice_orc/plugin/splice_plugin.py\<close>. Every method of
  \<^verbatim>\<open>SpliceOrcPlugin\<close> becomes a function from the state of the world to a result and the
  new state. A result is \<open>Inr v\<close> when the method returns \<open>v\<close> and \<open>Inl e\<close> when it
  raises \<open>e\<close>. Python strings are lists of characters, one \<open>char\<close> for each code point
  (code points below 256); \<^verbatim>\<open>None\<close> is \<open>None\<close>; a \<^verbatim>\<open>dict\<close> whose order matters is an
  association list.
\<close>

datatype exn =
    ApiException nat
  | ConfigException
  | ValueError
  | KeyError
  | External string

text \<open>
  \<open>ApiException st\<close> is \<^verbatim>\<open>kubernetes.client.exceptions.ApiException\<close> with HTTP status
  \<open>st\<close>; \<open>ValueError\<close> is what unpacking a one-element list into two names raises;
  \<open>External c\<close> is an exception of class \<open>c\<close> raised by a collaborator outside the plugin
  (the importers of the host runtime, the module proxy).
\<close>

datatype level = INFO | ERROR

datatype api_op =
    ListNamespace | CreateNamespace
  | ReadServiceAccount | CreateServiceAccount
  | ReadRole | CreateRole
  | ReadRoleBinding | CreateRoleBinding
  | ReadService

record ingress_entry =
  ip :: "string option"
  hostname :: "string option"

record service =
  ingress :: "ingress_entry list option"

record policy_rule =
  api_groups :: "string list"
  resources :: "string list"
  verbs :: "string list"

record role =
  rules :: "policy_rule list"

record subject =
  subject_kind :: string
  subject_name :: string
  subject_namespace :: string

record role_ref =
  ref_kind :: string
  ref_name :: string
  ref_api_group :: string

record role_binding =
  subjects :: "subject list"
  roleref :: role_ref

text \<open>
  The control plane: the objects it holds, keyed by namespace and name, and
  \<open>api_fault\<close>, the status with which it currently rejects an operation whatever the
  objects are (an outage, a permission error), if any.
\<close>

record cluster =
  namespaces :: "string list"
  service_accounts :: "(string \<times> string) list"
  roles :: "string \<times> string \<rightharpoonup> role"
  role_bindings :: "string \<times> string \<rightharpoonup> role_binding"
  services :: "string \<times> string \<rightharpoonup> service"
  api_fault :: "api_op \<Rightarrow> nat option"

record import_path_spec =
  spec_target :: string
  spec_base_path :: string
  spec_absorb :: bool
  spec_cachable :: bool
  spec_mdl_alias :: "string option"
  spec_override_name :: "string option"
  spec_lng :: "string option"
  spec_items :: "(string \<times> string option) list option"

text \<open>
  The calls that leave the process are recorded in \<open>trace\<close>, in the order the code
  makes them: control-plane requests with their outcome (\<open>None\<close> for success, the status
  otherwise), reads of the process environment, writes of the \<^verbatim>\<open>.env\<close> file, and the
  calls into the module proxy and into the importers of the host runtime.
\<close>

datatype event =
    ApiCall api_op "nat option"
  | Getenv string
  | EnvFileWrite string
  | ModuleProxyCall "string option" string
  | PythonRunImport import_path_spec
  | JacRunImport import_path_spec "bool option"

record world =
  cluster :: cluster
  kube_config :: bool
  incluster_config :: bool
  env_file :: "string option"
  environ :: "string \<rightharpoonup> string"
  jac_program :: bool
  logged :: "level list"
  trace :: "event list"

text \<open>
  \<open>kube_config\<close> and \<open>incluster_config\<close> say whether the two sources of client
  configuration can be loaded; \<open>env_file\<close> is the content of \<^verbatim>\<open>.env\<close> in the working
  directory (\<open>None\<close> when the file does not exist); \<open>environ\<close> is \<^verbatim>\<open>os.environ\<close>;
  \<open>jac_program\<close> says whether the machine of the host runtime has a program attached;
  \<open>logged\<close> keeps the level of every \<^verbatim>\<open>logging\<close> call (the message texts are left out).
\<close>

type_synonym 'a prog = "world \<Rightarrow> (exn + 'a) \<times> world"

definition ret :: "'a \<Rightarrow> 'a prog" where
  "ret x w = (Inr x, w)"

definition raise :: "exn \<Rightarrow> 'a prog" where
  "raise e w = (Inl e, w)"

definition seq :: "'a prog \<Rightarrow> ('a \<Rightarrow> 'b prog) \<Rightarrow> 'b prog" where
  "seq m f w = (case m w of (Inl e, w') \<Rightarrow> (Inl e, w') | (Inr x, w') \<Rightarrow> f x w')"

definition try_except :: "'a prog \<Rightarrow> (exn \<Rightarrow> 'a prog) \<Rightarrow> 'a prog" where
  "try_except m h w = (case m w of (Inl e, w') \<Rightarrow> h e w' | (Inr x, w') \<Rightarrow> (Inr x, w'))"

definition logging :: "level \<Rightarrow> unit prog" where
  "logging l w = (Inr (), w\<lparr>logged := logged w @ [l]\<rparr>)"

subsection \<open>The control-plane client\<close>

text \<open>
  The \<^verbatim>\<open>kubernetes\<close> client is a library, not part of the plugin. Its requests are
  modelled as a black-box create/read interface: a read answers 404 for a missing object;
  a create answers 404 for a missing namespace and 409 for an object that exists; a
  request the control plane rejects (\<open>api_fault\<close>) raises with that status and changes
  nothing.
\<close>

definition request :: "api_op \<Rightarrow> (cluster \<Rightarrow> nat + 'a \<times> cluster) \<Rightarrow> 'a prog" where
  "request op sem w =
     (case api_fault (cluster w) op of
        Some st \<Rightarrow> (Inl (ApiException st), w\<lparr>trace := trace w @ [ApiCall op (Some st)]\<rparr>)
      | None \<Rightarrow>
          (case sem (cluster w) of
             Inl st \<Rightarrow> (Inl (ApiException st), w\<lparr>trace := trace w @ [ApiCall op (Some st)]\<rparr>)
           | Inr (x, c') \<Rightarrow> (Inr x, w\<lparr>cluster := c', trace := trace w @ [ApiCall op None]\<rparr>)))"

definition v1_list_namespace :: "string list prog" where
  "v1_list_namespace = request ListNamespace (\<lambda>c. Inr (namespaces c, c))"

definition v1_create_namespace :: "string \<Rightarrow> unit prog" where
  "v1_create_namespace name =
     request CreateNamespace (\<lambda>c.
       if name \<in> set (namespaces c) then Inl 409
       else Inr ((), c\<lparr>namespaces := namespaces c @ [name]\<rparr>))"

definition v1_read_namespaced_service_account :: "string \<Rightarrow> string \<Rightarrow> unit prog" where
  "v1_read_namespaced_service_account name namespace =
     request ReadServiceAccount (\<lambda>c.
       if (namespace, name) \<in> set (service_accounts c) then Inr ((), c) else Inl 404)"

definition v1_create_namespaced_service_account :: "string \<Rightarrow> string \<Rightarrow> unit prog" where
  "v1_create_namespaced_service_account namespace name =
     request CreateServiceAccount (\<lambda>c.
       if namespace \<notin> set (namespaces c) then Inl 404
       else if (namespace, name) \<in> set (service_accounts c) then Inl 409
       else Inr ((), c\<lparr>service_accounts := service_accounts c @ [(namespace, name)]\<rparr>))"

definition rbac_read_namespaced_role :: "string \<Rightarrow> string \<Rightarrow> role prog" where
  "rbac_read_namespaced_role name namespace =
     request ReadRole (\<lambda>c.
       case roles c (namespace, name) of Some r \<Rightarrow> Inr (r, c) | None \<Rightarrow> Inl 404)"

definition rbac_create_namespaced_role :: "string \<Rightarrow> string \<Rightarrow> role \<Rightarrow> unit prog" where
  "rbac_create_namespaced_role namespace name body =
     request CreateRole (\<lambda>c.
       if namespace \<notin> set (namespaces c) then Inl 404
       else case roles c (namespace, name) of
              Some r \<Rightarrow> Inl 409
            | None \<Rightarrow> Inr ((), c\<lparr>roles := (roles c)((namespace, name) \<mapsto> body)\<rparr>))"

definition rbac_read_namespaced_role_binding :: "string \<Rightarrow> string \<Rightarrow> role_binding prog" where
  "rbac_read_namespaced_role_binding name namespace =
     request ReadRoleBinding (\<lambda>c.
       case role_bindings c (namespace, name) of Some b \<Rightarrow> Inr (b, c) | None \<Rightarrow> Inl 404)"

definition rbac_create_namespaced_role_binding ::
  "string \<Rightarrow> string \<Rightarrow> role_binding \<Rightarrow> unit prog" where
  "rbac_create_namespaced_role_binding namespace name body =
     request CreateRoleBinding (\<lambda>c.
       if namespace \<notin> set (namespaces c) then Inl 404
       else case role_bindings c (namespace, name) of
              Some b \<Rightarrow> Inl 409
            | None \<Rightarrow> Inr ((), c\<lparr>role_bindings := (role_bindings c)((namespace, name) \<mapsto> body)\<rparr>))"

definition v1_read_namespaced_service :: "string \<Rightarrow> string \<Rightarrow> service prog" where
  "v1_read_namespaced_service name namespace =
     request ReadService (\<lambda>c.
       case services c (namespace, name) of Some s \<Rightarrow> Inr (s, c) | None \<Rightarrow> Inl 404)"

text \<open>
  \<^verbatim>\<open>try: config.load_kube_config()  except config.ConfigException:
  config.load_incluster_config()\<close>: the second exception is not caught.
\<close>

definition load_config :: "unit prog" where
  "load_config w =
     (if kube_config w then (Inr (), w)
      else if incluster_config w then (Inr (), w)
      else (Inl ConfigException, w))"

section \<open>Endpoint resolution\<close>

text \<open>Python truth of an optional string: neither \<^verbatim>\<open>None\<close> nor empty.\<close>

definition truthy :: "string option \<Rightarrow> bool" where
  "truthy x = (case x of None \<Rightarrow> False | Some s \<Rightarrow> s \<noteq> [])"

definition get_loadbalancer_url :: "string \<Rightarrow> string \<Rightarrow> string option prog" where
  "get_loadbalancer_url service_name namespace =
     seq load_config (\<lambda>_.
       try_except
         (seq (v1_read_namespaced_service service_name namespace) (\<lambda>service.
            case ingress service of
              Some (e # rest) \<Rightarrow>
                seq (logging INFO) (\<lambda>_.
                  if truthy (ip e) then ret (ip e)
                  else if truthy (hostname e) then ret (hostname e)
                  else ret None)
            | _ \<Rightarrow> ret None))
         (\<lambda>e. case e of
                ApiException st \<Rightarrow> seq (logging ERROR) (\<lambda>_. ret None)
              | _ \<Rightarrow> raise e))"

section \<open>The local configuration store\<close>

text \<open>
  The \<^verbatim>\<open>.env\<close> file is opened in text mode. On reading, Python turns every
  \<^verbatim>\<open>\r\n\<close> and every lone \<^verbatim>\<open>\r\<close> into \<^verbatim>\<open>\n\<close>; iterating over the file gives its
  lines, each with its terminating \<^verbatim>\<open>\n\<close> (the last one possibly without). On writing
  (POSIX) the text is stored as it is.
\<close>

abbreviation LF :: char where "LF \<equiv> CHR 0x0A"
abbreviation CR :: char where "CR \<equiv> CHR 0x0D"
abbreviation DQ :: char where "DQ \<equiv> CHR 0x22"
abbreviation EQ :: char where "EQ \<equiv> CHR ''=''"

fun universal_newlines :: "string \<Rightarrow> string" where
  "universal_newlines [] = []"
| "universal_newlines [c] = (if c = CR then [LF] else [c])"
| "universal_newlines (c # d # cs) =
     (if c = CR then
        (if d = LF then LF # universal_newlines cs else LF # universal_newlines (d # cs))
      else c # universal_newlines (d # cs))"

fun readlines :: "string \<Rightarrow> string \<Rightarrow> string list" where
  "readlines cur [] = (if cur = [] then [] else [cur])"
| "readlines cur (c # cs) =
     (if c = LF then (cur @ [c]) # readlines [] cs else readlines (cur @ [c]) cs)"

text \<open>
  \<^verbatim>\<open>str.isspace\<close> on code points below 256, \<^verbatim>\<open>s.strip()\<close>, \<^verbatim>\<open>s.strip(chars)\<close> and
  \<^verbatim>\<open>s.split("=", 1)\<close>.
\<close>

definition isspace :: "char \<Rightarrow> bool" where
  "isspace c =
     (let n = (of_char c :: nat)
      in (9 \<le> n \<and> n \<le> 13) \<or> (28 \<le> n \<and> n \<le> 32) \<or> n = 133 \<or> n = 160)"

definition strip :: "string \<Rightarrow> string" where
  "strip s = rev (dropWhile isspace (rev (dropWhile isspace s)))"

definition strip_chars :: "string \<Rightarrow> string \<Rightarrow> string" where
  "strip_chars chars s =
     rev (dropWhile (\<lambda>c. c \<in> set chars) (rev (dropWhile (\<lambda>c. c \<in> set chars) s)))"

definition split_eq :: "string \<Rightarrow> string list" where
  "split_eq s =
     (if EQ \<in> set s
      then [takeWhile (\<lambda>c. c \<noteq> EQ) s, tl (dropWhile (\<lambda>c. c \<noteq> EQ) s)]
      else [s])"

text \<open>
  The loop \<^verbatim>\<open>for line in env_file\<close> of \<^verbatim>\<open>configure_pod_manager_url\<close>: blank lines are
  skipped, \<^verbatim>\<open>key, value = line.strip().split("=", 1)\<close> raises \<^verbatim>\<open>ValueError\<close> on a line
  without \<^verbatim>\<open>=\<close>, and \<^verbatim>\<open>env_vars[key] = value.strip('"')\<close> keeps the position of a key that
  is already there.
\<close>

fun read_env_lines :: "(string \<times> string) list \<Rightarrow> string list \<Rightarrow> exn + (string \<times> string) list" where
  "read_env_lines env_vars [] = Inr env_vars"
| "read_env_lines env_vars (line # ls) =
     (if strip line \<noteq> [] then
        (case split_eq (strip line) of
           [key, value] \<Rightarrow>
             read_env_lines (AList.update key (strip_chars [DQ] value) env_vars) ls
         | _ \<Rightarrow> Inl ValueError)
      else read_env_lines env_vars ls)"

text \<open>The loop \<^verbatim>\<open>for key, value in env_vars.items(): env_file.write(f'{key}="{value}"\n')\<close>.\<close>

fun write_env_lines :: "(string \<times> string) list \<Rightarrow> string" where
  "write_env_lines [] = []"
| "write_env_lines ((key, value) # kvs) =
     key @ [EQ, DQ] @ value @ [DQ, LF] @ write_env_lines kvs"

definition read_env_file :: "(string \<times> string) list prog" where
  "read_env_file w =
     (case env_file w of
        None \<Rightarrow> (Inr [], w)
      | Some text \<Rightarrow>
          (case read_env_lines [] (readlines [] (universal_newlines text)) of
             Inl e \<Rightarrow> (Inl e, w)
           | Inr env_vars \<Rightarrow> (Inr env_vars, w)))"

definition write_env_file :: "(string \<times> string) list \<Rightarrow> unit prog" where
  "write_env_file env_vars w =
     (Inr (), w\<lparr>env_file := Some (write_env_lines env_vars),
               trace := trace w @ [EnvFileWrite (write_env_lines env_vars)]\<rparr>)"

definition configure_pod_manager_url :: "string \<Rightarrow> unit prog" where
  "configure_pod_manager_url namespace =
     seq (get_loadbalancer_url ''pod-manager-service'' namespace) (\<lambda>url.
       case url of
         Some u \<Rightarrow>
           if u \<noteq> [] then
             seq read_env_file (\<lambda>env_vars.
               seq (write_env_file
                      (AList.update ''POD_MANAGER_URL'' (''http://'' @ u @ '':8000'') env_vars))
                 (\<lambda>_. logging INFO))
           else logging ERROR
       | None \<Rightarrow> logging ERROR)"

section \<open>Cluster bootstrap\<close>

definition create_namespace :: "string \<Rightarrow> unit prog" where
  "create_namespace namespace_name =
     seq (logging INFO) (\<lambda>_.
     seq load_config (\<lambda>_.
     seq v1_list_namespace (\<lambda>items.
       if namespace_name \<in> set items then logging INFO
       else seq (v1_create_namespace namespace_name) (\<lambda>_. logging INFO))))"

definition create_role_and_binding :: "string \<Rightarrow> string \<Rightarrow> unit prog" where
  "create_role_and_binding namespace service_account_name =
     (let role_name = ''smartimport-role'';
          role_binding_name = ''smartimport-rolebinding'';
          role = \<lparr>rules =
            [\<lparr>api_groups = [[]],
              resources = [''pods'', ''services'', ''configmaps''],
              verbs = [''get'', ''watch'', ''list'', ''create'', ''update'', ''delete'']\<rparr>,
             \<lparr>api_groups = [''apps''],
              resources = [''deployments''],
              verbs = [''get'', ''watch'', ''list'', ''create'', ''update'', ''delete'']\<rparr>]\<rparr>;
          role_binding = \<lparr>subjects =
            [\<lparr>subject_kind = ''ServiceAccount'',
              subject_name = service_account_name,
              subject_namespace = namespace\<rparr>],
            roleref = \<lparr>ref_kind = ''Role'', ref_name = role_name,
                       ref_api_group = ''rbac.authorization.k8s.io''\<rparr>\<rparr>
      in seq
           (try_except
              (seq (rbac_read_namespaced_role role_name namespace) (\<lambda>_. logging INFO))
              (\<lambda>e. case e of
                     ApiException st \<Rightarrow>
                       if st = 404 then
                         seq (rbac_create_namespaced_role namespace role_name role)
                           (\<lambda>_. logging INFO)
                       else seq (logging ERROR) (\<lambda>_. raise e)
                   | _ \<Rightarrow> raise e))
           (\<lambda>_.
            try_except
              (seq (rbac_read_namespaced_role_binding role_binding_name namespace)
                 (\<lambda>_. logging INFO))
              (\<lambda>e. case e of
                     ApiException st \<Rightarrow>
                       if st = 404 then
                         seq (rbac_create_namespaced_role_binding namespace role_binding_name
                                role_binding)
                           (\<lambda>_. logging INFO)
                       else seq (logging ERROR) (\<lambda>_. raise e)
                   | _ \<Rightarrow> raise e)))"

definition create_service_account :: "string \<Rightarrow> unit prog" where
  "create_service_account namespace =
     (let service_account_name = ''smartimportsa''
      in seq
           (try_except
              (seq (v1_read_namespaced_service_account service_account_name namespace)
                 (\<lambda>_. logging INFO))
              (\<lambda>e. case e of
                     ApiException st \<Rightarrow>
                       if st = 404 then
                         seq (v1_create_namespaced_service_account namespace
                                service_account_name)
                           (\<lambda>_. logging INFO)
                       else seq (logging ERROR) (\<lambda>_. raise e)
                   | _ \<Rightarrow> raise e))
           (\<lambda>_. create_role_and_binding namespace service_account_name))"

text \<open>
  The bootstrap is the first two calls of the constructor:
  \<^verbatim>\<open>namespace = "jac-splice-orc"; self.create_namespace(namespace);
  self.create_service_account(namespace)\<close>.
\<close>

definition ensure_ready :: "unit prog" where
  "ensure_ready =
     (let namespace = ''jac-splice-orc''
      in seq (create_namespace namespace) (\<lambda>_. create_service_account namespace))"

section \<open>Import routing\<close>

text \<open>
  What \<^verbatim>\<open>jac_import\<close> calls but the plugin does not define: the settings of the host
  runtime, its two importers, and the module proxy of
  \<^verbatim>\<open>jac_splice_orc.managers.proxy_manager\<close>. They are parameters of the model; \<open>'obj\<close> is
  the type of the module-like objects they hand back. \<open>get_module_proxy url name cfg\<close>
  stands for \<^verbatim>\<open>ModuleProxy(url).get_module_proxy(module_name=name, module_config=cfg)\<close>.
\<close>

record 'obj import_return =
  ret_mod :: 'obj
  ret_items :: "'obj list"

record 'obj host =
  module_config :: "string \<rightharpoonup> (string \<rightharpoonup> string)"
  get_module_proxy :: "string option \<Rightarrow> string \<Rightarrow> (string \<rightharpoonup> string) \<Rightarrow> exn + 'obj"
  python_run_import :: "import_path_spec \<Rightarrow> exn + 'obj import_return"
  jac_run_import :: "import_path_spec \<Rightarrow> bool option \<Rightarrow> exn + 'obj import_return"

definition getenv :: "string \<Rightarrow> string option prog" where
  "getenv name w = (Inr (environ w name), w\<lparr>trace := trace w @ [Getenv name]\<rparr>)"

definition module_proxy :: "'obj host \<Rightarrow> string option \<Rightarrow> string \<Rightarrow> (string \<rightharpoonup> string) \<Rightarrow> 'obj prog" where
  "module_proxy h url name cfg w =
     (get_module_proxy h url name cfg, w\<lparr>trace := trace w @ [ModuleProxyCall url name]\<rparr>)"

definition run_python_import :: "'obj host \<Rightarrow> import_path_spec \<Rightarrow> 'obj import_return prog" where
  "run_python_import h spec w =
     (python_run_import h spec, w\<lparr>trace := trace w @ [PythonRunImport spec]\<rparr>)"

definition run_jac_import ::
  "'obj host \<Rightarrow> import_path_spec \<Rightarrow> bool option \<Rightarrow> 'obj import_return prog" where
  "run_jac_import h spec reload_module w =
     (jac_run_import h spec reload_module,
      w\<lparr>trace := trace w @ [JacRunImport spec reload_module]\<rparr>)"

text \<open>
  \<^verbatim>\<open>if not jac_machine.jac_program: jac_machine.attach_program(...)\<close>
\<close>

definition attach_program :: "unit prog" where
  "attach_program w = (Inr (), if jac_program w then w else w\<lparr>jac_program := True\<rparr>)"

text \<open>Python truth of the optional dictionary \<^verbatim>\<open>items\<close>.\<close>

definition items_truthy :: "(string \<times> string option) list option \<Rightarrow> bool" where
  "items_truthy items = (case items of None \<Rightarrow> False | Some kvs \<Rightarrow> kvs \<noteq> [])"

text \<open>
  The test \<^verbatim>\<open>target in settings.module_config and
  settings.module_config[target]["load_type"] == "remote"\<close>; subscripting a configuration
  without the key raises \<^verbatim>\<open>KeyError\<close>.
\<close>

definition load_type_remote :: "'obj host \<Rightarrow> string \<Rightarrow> bool prog" where
  "load_type_remote h target =
     (case module_config h target of
        None \<Rightarrow> ret False
      | Some cfg \<Rightarrow>
          (case cfg ''load_type'' of
             None \<Rightarrow> raise KeyError
           | Some t \<Rightarrow> ret (t = ''remote'')))"

definition jac_import ::
  "'obj host \<Rightarrow> string \<Rightarrow> string \<Rightarrow> bool \<Rightarrow> bool \<Rightarrow> string option \<Rightarrow> string option \<Rightarrow>
   string option \<Rightarrow> (string \<times> string option) list option \<Rightarrow> bool option \<Rightarrow> 'obj list prog" where
  "jac_import h target base_path absorb cachable mdl_alias override_name lng items reload_module =
     seq (load_type_remote h target) (\<lambda>remote.
       if remote then
         seq (getenv ''POD_MANAGER_URL'') (\<lambda>pod_manager_url.
         seq (case module_config h target of
                Some cfg \<Rightarrow> module_proxy h pod_manager_url target cfg
              | None \<Rightarrow> raise KeyError) (\<lambda>remote_module_proxy.
         seq (logging INFO) (\<lambda>_.
         ret [remote_module_proxy])))
       else
         (let spec = \<lparr>spec_target = target, spec_base_path = base_path,
                      spec_absorb = absorb, spec_cachable = cachable,
                      spec_mdl_alias = mdl_alias, spec_override_name = override_name,
                      spec_lng = lng, spec_items = items\<rparr>
          in seq attach_program (\<lambda>_.
             seq (if lng = Some ''py'' then run_python_import h spec
                  else run_jac_import h spec reload_module) (\<lambda>import_result.
             ret (if absorb \<or> \<not> items_truthy items then [ret_mod import_result]
                  else ret_items import_result)))))"

section \<open>Notions used in the statements and proofs\<close>

text \<open>Whether an event of the trace is a write of the \<^verbatim>\<open>.env\<close> file.\<close>

definition is_env_write :: "event \<Rightarrow> bool" where
  "is_env_write ev = (case ev of EnvFileWrite text \<Rightarrow> True | _ \<Rightarrow> False)"

text \<open>
  The four objects with the names the constructor and the bootstrap methods fix: the
  namespace, the service account, the role and the role binding.
\<close>

definition identity_present :: "cluster \<Rightarrow> bool" where
  "identity_present c =
     (''jac-splice-orc'' \<in> set (namespaces c)
      \<and> (''jac-splice-orc'', ''smartimportsa'') \<in> set (service_accounts c)
      \<and> roles c (''jac-splice-orc'', ''smartimport-role'') \<noteq> None
      \<and> role_bindings c (''jac-splice-orc'', ''smartimport-rolebinding'') \<noteq> None)"

text \<open>
  The client can be configured and the control plane rejects nothing of its own accord.
\<close>

definition healthy :: "world \<Rightarrow> bool" where
  "healthy w = ((kube_config w \<or> incluster_config w) \<and> api_fault (cluster w) = (\<lambda>op. None))"

text \<open>
  The shape the three \<^verbatim>\<open>try\<close> blocks of \<^verbatim>\<open>create_service_account\<close> and
  \<^verbatim>\<open>create_role_and_binding\<close> share; the proofs fold the blocks into it.
\<close>

definition read_or_create :: "'a prog \<Rightarrow> unit prog \<Rightarrow> unit prog" where
  "read_or_create read create =
     try_except (seq read (\<lambda>_. logging INFO))
       (\<lambda>e. case e of
              ApiException st \<Rightarrow>
                if st = 404 then seq create (\<lambda>_. logging INFO)
                else seq (logging ERROR) (\<lambda>_. raise e)
            | _ \<Rightarrow> raise e)"

text \<open>
  The one failure the bootstrap handles: status 404 on the read of a service account, a
  role or a role binding.
\<close>

definition not_found_on_read :: "api_op \<Rightarrow> nat \<Rightarrow> bool" where
  "not_found_on_read op st =
     (st = 404 \<and> (op = ReadServiceAccount \<or> op = ReadRole \<or> op = ReadRoleBinding))"

text \<open>
  A run with result \<open>r\<close> and requests \<open>evs\<close> is loud when every failed request other
  than a not-found read is the last request and is what the run raises.
\<close>

definition loud :: "exn + 'a \<Rightarrow> event list \<Rightarrow> bool" where
  "loud r evs =
     (\<forall>pre post op st. evs = pre @ ApiCall op (Some st) # post \<longrightarrow> \<not> not_found_on_read op st
        \<longrightarrow> post = [] \<and> r = Inl (ApiException st))"

definition loud_prog :: "'a prog \<Rightarrow> bool" where
  "loud_prog m = (\<forall>w. \<exists>evs. trace (snd (m w)) = trace w @ evs \<and> loud (fst (m w)) evs)"

text \<open>
  What the reading loop guarantees of the keys and values it yields, and of the lines it is
  given: a key has no \<^verbatim>\<open>=\<close>, no line break and no leading white space; a value has no line
  break and neither starts nor ends with a double quote; the keys are distinct; a line has
  its only \<^verbatim>\<open>\n\<close> at the end.
\<close>

definition key_ok :: "string \<Rightarrow> bool" where
  "key_ok k = (EQ \<notin> set k \<and> LF \<notin> set k \<and> CR \<notin> set k \<and> (k = [] \<or> \<not> isspace (hd k)))"

definition value_ok :: "string \<Rightarrow> bool" where
  "value_ok v = (LF \<notin> set v \<and> CR \<notin> set v \<and> (v = [] \<or> (hd v \<noteq> DQ \<and> last v \<noteq> DQ)))"

definition store_ok :: "(string \<times> string) list \<Rightarrow> bool" where
  "store_ok env_vars =
     (distinct (map fst env_vars) \<and> (\<forall>kv \<in> set env_vars. key_ok (fst kv) \<and> value_ok (snd kv)))"

definition line_ok :: "string \<Rightarrow> bool" where
  "line_ok l = (LF \<notin> set (butlast l) \<and> CR \<notin> set l)"

subsection \<open>Example states\<close>

definition example_world :: "(string \<times> string \<rightharpoonup> service) \<Rightarrow> string option \<Rightarrow> world" where
  "example_world svcs file =
     \<lparr>cluster = \<lparr>namespaces = [''jac-splice-orc''], service_accounts = [], roles = Map.empty,
                  role_bindings = Map.empty, services = svcs, api_fault = (\<lambda>op. None)\<rparr>,
      kube_config = True, incluster_config = False, env_file = file, environ = Map.empty,
      jac_program = False, logged = [], trace = []\<rparr>"

definition manager_with :: "ingress_entry list option \<Rightarrow> (string \<times> string \<rightharpoonup> service)" where
  "manager_with ing = [(''jac-splice-orc'', ''pod-manager-service'') \<mapsto> \<lparr>ingress = ing\<rparr>]"

definition empty_world :: world where
  "empty_world =
     \<lparr>cluster = \<lparr>namespaces = [], service_accounts = [], roles = Map.empty,
                  role_bindings = Map.empty, services = Map.empty, api_fault = (\<lambda>op. None)\<rparr>,
      kube_config = False, incluster_config = True, env_file = None, environ = Map.empty,
      jac_program = False, logged = [], trace = []\<rparr>"

text \<open>An empty cluster whose control plane refuses to read roles.\<close>

definition forbidden_world :: world where
  "forbidden_world =
     empty_world\<lparr>cluster := (cluster empty_world)
       \<lparr>api_fault := (\<lambda>op. if op = ReadRole then Some 403 else None)\<rparr>\<rparr>"

text \<open>A manager with an address and a store that holds an unrelated key and an old endpoint.\<close>

definition stored_world :: world where
  "stored_world =
     example_world (manager_with (Some [\<lparr>ip = Some ''10.0.0.7'', hostname = None\<rparr>]))
       (Some (''A=1'' @ [LF] @ ''POD_MANAGER_URL=old'' @ [LF]))"

subsection \<open>Example collaborators\<close>

datatype pyobj = ModuleObj string | ItemObj string string | ProxyObj "string option" string

text \<open>
  Modelled from the spec: \<^verbatim>\<open>ModuleProxy\<close> of \<^verbatim>\<open>jac_splice_orc.managers.proxy_manager\<close>,
  which is not among the sources. The spec gives the contract
  \<^verbatim>\<open>get_proxy(module identifier, module config, endpoint) -> ModuleProxy\<close> and describes the
  proxy as a handle holding the module identifier and the manager endpoint; it names no
  failure of the factory for an absent endpoint.
\<close>

definition spec_module_proxy :: "string option \<Rightarrow> string \<Rightarrow> (string \<rightharpoonup> string) \<Rightarrow> exn + pyobj" where
  "spec_module_proxy url name cfg = Inr (ProxyObj url name)"

text \<open>
  An importer that hands back the module and, as items, the requested names in the order
  of the request.
\<close>

definition example_importer :: "import_path_spec \<Rightarrow> exn + pyobj import_return" where
  "example_importer spec =
     Inr \<lparr>ret_mod = ModuleObj (spec_target spec),
          ret_items = (case spec_items spec of
                         None \<Rightarrow> []
                       | Some kvs \<Rightarrow> map (\<lambda>kv. ItemObj (spec_target spec) (fst kv)) kvs)\<rparr>"

definition example_host :: "pyobj host" where
  "example_host =
     \<lparr>module_config = [''numpy'' \<mapsto> [''load_type'' \<mapsto> ''remote''],
                        ''pkg.mod'' \<mapsto> [''load_type'' \<mapsto> ''local'']],
      get_module_proxy = spec_module_proxy,
      python_run_import = example_importer,
      jac_run_import = (\<lambda>spec reload_module. example_importer spec)\<rparr>"



section \<open>Endpoint resolution and the configuration store: properties\<close>

lemmas prog_defs = ret_def raise_def seq_def try_except_def logging_def load_config_def request_def

lemmas eval_defs = prog_defs get_loadbalancer_url_def v1_read_namespaced_service_def
  example_world_def manager_with_def truthy_def

lemma read_service_result:
  "\<exists>out. v1_read_namespaced_service s ns w =
      ((case out of Inl st \<Rightarrow> Inl (ApiException st) | Inr svc \<Rightarrow> Inr svc),
       w\<lparr>trace := trace w @ [ApiCall ReadService (case out of Inl st \<Rightarrow> Some st | Inr svc \<Rightarrow> None)]\<rparr>)"
  unfolding v1_read_namespaced_service_def request_def
  by (cases "api_fault (cluster w) ReadService"; cases "services (cluster w) (ns, s)")
     (auto intro: exI[of _ "Inl _"] exI[of _ "Inr _"])

lemma get_loadbalancer_url_result:
  assumes "kube_config w \<or> incluster_config w"
  shows "fst (get_loadbalancer_url s ns w) =
     (case fst (v1_read_namespaced_service s ns w) of
        Inl e \<Rightarrow> (case e of ApiException st \<Rightarrow> Inr None | _ \<Rightarrow> Inl e)
      | Inr svc \<Rightarrow>
          (case ingress svc of
             None \<Rightarrow> Inr None
           | Some [] \<Rightarrow> Inr None
           | Some (e # rest) \<Rightarrow>
               Inr (if truthy (ip e) then ip e
                    else if truthy (hostname e) then hostname e else None)))"
proof -
  obtain out where "v1_read_namespaced_service s ns w =
      ((case out of Inl st \<Rightarrow> Inl (ApiException st) | Inr svc \<Rightarrow> Inr svc),
       w\<lparr>trace := trace w @ [ApiCall ReadService (case out of Inl st \<Rightarrow> Some st | Inr svc \<Rightarrow> None)]\<rparr>)"
    using read_service_result by blast
  with assms show ?thesis
    by (cases out)
       (auto simp: get_loadbalancer_url_def seq_def try_except_def load_config_def ret_def
          logging_def split: option.splits list.splits)
qed

lemma get_loadbalancer_url_frame:
  "env_file (snd (get_loadbalancer_url s ns w)) = env_file w
   \<and> cluster (snd (get_loadbalancer_url s ns w)) = cluster w
   \<and> environ (snd (get_loadbalancer_url s ns w)) = environ w
   \<and> filter is_env_write (trace (snd (get_loadbalancer_url s ns w))) = filter is_env_write (trace w)"
proof -
  obtain out where "v1_read_namespaced_service s ns w =
      ((case out of Inl st \<Rightarrow> Inl (ApiException st) | Inr svc \<Rightarrow> Inr svc),
       w\<lparr>trace := trace w @ [ApiCall ReadService (case out of Inl st \<Rightarrow> Some st | Inr svc \<Rightarrow> None)]\<rparr>)"
    using read_service_result by blast
  then show ?thesis
    by (cases out)
       (auto simp: get_loadbalancer_url_def seq_def try_except_def load_config_def ret_def raise_def
          logging_def is_env_write_def split: option.splits list.splits)
qed

text \<open>
  Claim C9. Endpoint resolution looks at the first ingress entry only: it returns that
  entry's IP when it has one, otherwise its hostname when it has one, otherwise nothing;
  the entries after the first never matter. An \<^verbatim>\<open>ApiException\<close> raised by the read of the
  service gives no address instead of an exception.
\<close>
theorem get_loadbalancer_url_first_ingress:
  assumes "kube_config w \<or> incluster_config w"
  shows "fst (get_loadbalancer_url s ns w) =
     (case fst (v1_read_namespaced_service s ns w) of
        Inl e \<Rightarrow> (case e of ApiException st \<Rightarrow> Inr None | _ \<Rightarrow> Inl e)
      | Inr svc \<Rightarrow>
          (case ingress svc of
             None \<Rightarrow> Inr None
           | Some [] \<Rightarrow> Inr None
           | Some (e # rest) \<Rightarrow>
               Inr (if truthy (ip e) then ip e
                    else if truthy (hostname e) then hostname e else None)))"
  using assms by (rule get_loadbalancer_url_result)

theorem get_loadbalancer_url_first_ingress_witness:
  "fst (get_loadbalancer_url ''pod-manager-service'' ''jac-splice-orc''
     (example_world (manager_with (Some [\<lparr>ip = None, hostname = Some ''lb.example.org''\<rparr>,
                                        \<lparr>ip = Some ''10.0.0.7'', hostname = None\<rparr>])) None))
   = Inr (Some ''lb.example.org'')
   \<and> fst (get_loadbalancer_url ''pod-manager-service'' ''jac-splice-orc''
     (example_world (manager_with (Some [\<lparr>ip = None, hostname = Some ''lb.example.org''\<rparr>,
                                        \<lparr>ip = Some ''10.0.0.7'', hostname = None\<rparr>])) None
        \<lparr>cluster := cluster (example_world Map.empty None)\<lparr>api_fault := (\<lambda>op. Some 503)\<rparr>\<rparr>))
   = Inr None"
  using get_loadbalancer_url_first_ingress [of
     "example_world (manager_with (Some [\<lparr>ip = None, hostname = Some ''lb.example.org''\<rparr>,
                                        \<lparr>ip = Some ''10.0.0.7'', hostname = None\<rparr>])) None"
     "''pod-manager-service''" "''jac-splice-orc''"]
    get_loadbalancer_url_first_ingress [of
     "example_world (manager_with (Some [\<lparr>ip = None, hostname = Some ''lb.example.org''\<rparr>,
                                        \<lparr>ip = Some ''10.0.0.7'', hostname = None\<rparr>])) None
        \<lparr>cluster := cluster (example_world Map.empty None)\<lparr>api_fault := (\<lambda>op. Some 503)\<rparr>\<rparr>"
     "''pod-manager-service''" "''jac-splice-orc''"]
  by (simp add: v1_read_namespaced_service_def request_def example_world_def manager_with_def truthy_def)

text \<open>
  Claim C7, as the code has it. When the first ingress entry of the manager service
  reports both an IP address and a hostname, the resolution returns the IP address. The
  entries after the first are not consulted.
\<close>
theorem get_loadbalancer_url_prefers_ip:
  assumes "kube_config w \<or> incluster_config w"
      and "fst (v1_read_namespaced_service s ns w) = Inr svc"
      and "ingress svc = Some (e # rest)"
      and "ip e = Some a" and "a \<noteq> []"
      and "hostname e = Some h" and "h \<noteq> []"
  shows "fst (get_loadbalancer_url s ns w) = Inr (Some a)"
  using assms by (simp add: get_loadbalancer_url_result truthy_def)

theorem get_loadbalancer_url_prefers_ip_witness:
  "(kube_config (example_world (manager_with (Some
        [\<lparr>ip = Some ''10.0.0.7'', hostname = Some ''lb.example.org''\<rparr>])) None)
      \<or> incluster_config (example_world (manager_with (Some
        [\<lparr>ip = Some ''10.0.0.7'', hostname = Some ''lb.example.org''\<rparr>])) None))
   \<and> fst (v1_read_namespaced_service ''pod-manager-service'' ''jac-splice-orc''
        (example_world (manager_with (Some
          [\<lparr>ip = Some ''10.0.0.7'', hostname = Some ''lb.example.org''\<rparr>])) None))
       = Inr \<lparr>ingress = Some [\<lparr>ip = Some ''10.0.0.7'', hostname = Some ''lb.example.org''\<rparr>]\<rparr>
   \<and> fst (get_loadbalancer_url ''pod-manager-service'' ''jac-splice-orc''
        (example_world (manager_with (Some
          [\<lparr>ip = Some ''10.0.0.7'', hostname = Some ''lb.example.org''\<rparr>])) None))
       = Inr (Some ''10.0.0.7'')"
proof -
  let ?e = "\<lparr>ip = Some ''10.0.0.7'', hostname = Some ''lb.example.org''\<rparr>"
  let ?w = "example_world (manager_with (Some [?e])) None"
  have a: "kube_config ?w \<or> incluster_config ?w"
    by (simp add: example_world_def)
  have b: "fst (v1_read_namespaced_service ''pod-manager-service'' ''jac-splice-orc'' ?w)
             = Inr \<lparr>ingress = Some [?e]\<rparr>"
    by (simp add: eval_defs)
  have c: "ingress \<lparr>ingress = Some [?e]\<rparr> = Some (?e # [])"
    by simp
  have "fst (get_loadbalancer_url ''pod-manager-service'' ''jac-splice-orc'' ?w)
          = Inr (Some ''10.0.0.7'')"
    by (rule get_loadbalancer_url_prefers_ip [OF a b c, of "''10.0.0.7''" "''lb.example.org''"])
       simp_all
  with a b show ?thesis by blast
qed

text \<open>
  The claim as stated speaks of every service whose ingress reports both an IP address
  and a hostname. A service whose first entry has only a hostname and whose second entry
  has only an IP address reports both, and the resolution returns the hostname.
\<close>

theorem get_loadbalancer_url_prefers_ip_counterexample:
  "fst (get_loadbalancer_url ''pod-manager-service'' ''jac-splice-orc''
     (example_world (manager_with (Some
        [\<lparr>ip = None, hostname = Some ''manager.example.net''\<rparr>,
         \<lparr>ip = Some ''192.0.2.10'', hostname = None\<rparr>])) None))
     = Inr (Some ''manager.example.net'')"
  by (simp add: eval_defs)

lemma configure_unresolved:
  assumes "fst (get_loadbalancer_url ''pod-manager-service'' ns w) = Inr None"
  shows "configure_pod_manager_url ns w =
     (Inr (), (snd (get_loadbalancer_url ''pod-manager-service'' ns w))
        \<lparr>logged := logged (snd (get_loadbalancer_url ''pod-manager-service'' ns w)) @ [ERROR]\<rparr>)"
  using assms
  by (cases "get_loadbalancer_url ''pod-manager-service'' ns w")
     (simp add: configure_pod_manager_url_def seq_def logging_def)

text \<open>
  Claim C10. When the resolution gives no address, \<^verbatim>\<open>configure_pod_manager_url\<close> returns
  without writing the \<^verbatim>\<open>.env\<close> file: its content is what it was, a persisted endpoint
  included, and the trace has no new write.
\<close>
theorem configure_pod_manager_url_no_write:
  assumes "fst (get_loadbalancer_url ''pod-manager-service'' ns w) = Inr None"
  shows "fst (configure_pod_manager_url ns w) = Inr ()
     \<and> env_file (snd (configure_pod_manager_url ns w)) = env_file w
     \<and> filter is_env_write (trace (snd (configure_pod_manager_url ns w)))
         = filter is_env_write (trace w)"
  using assms get_loadbalancer_url_frame [of "''pod-manager-service''" ns w]
  by (simp add: configure_unresolved)

theorem configure_pod_manager_url_no_write_witness:
  "fst (get_loadbalancer_url ''pod-manager-service'' ''jac-splice-orc''
          (example_world (manager_with None) (Some ''POD_MANAGER_URL=old''))) = Inr None
   \<and> fst (configure_pod_manager_url ''jac-splice-orc''
          (example_world (manager_with None) (Some ''POD_MANAGER_URL=old''))) = Inr ()
   \<and> env_file (snd (configure_pod_manager_url ''jac-splice-orc''
          (example_world (manager_with None) (Some ''POD_MANAGER_URL=old''))))
       = Some ''POD_MANAGER_URL=old''
   \<and> filter is_env_write (trace (snd (configure_pod_manager_url ''jac-splice-orc''
          (example_world (manager_with None) (Some ''POD_MANAGER_URL=old''))))) = []"
proof -
  have h: "fst (get_loadbalancer_url ''pod-manager-service'' ''jac-splice-orc''
          (example_world (manager_with None) (Some ''POD_MANAGER_URL=old''))) = Inr None"
    by (simp add: eval_defs)
  show ?thesis
    using h configure_pod_manager_url_no_write [OF h]
    by (simp add: example_world_def)
qed

text \<open>
  Claim C2, as the code has it. Against a manager service without an ingress address
  \<^verbatim>\<open>configure_pod_manager_url\<close> makes one read of the service, logs an error and returns
  normally: it raises nothing, returns no error value, and leaves the \<^verbatim>\<open>.env\<close> file and the
  cluster as they were. Being a total function it cannot hang, and it writes no endpoint.
\<close>
theorem configure_pod_manager_url_unready:
  assumes "kube_config w \<or> incluster_config w"
      and "fst (v1_read_namespaced_service ''pod-manager-service'' ns w) = Inr svc"
      and "ingress svc = None \<or> ingress svc = Some []"
  shows "fst (configure_pod_manager_url ns w) = Inr ()
     \<and> env_file (snd (configure_pod_manager_url ns w)) = env_file w
     \<and> cluster (snd (configure_pod_manager_url ns w)) = cluster w
     \<and> logged (snd (configure_pod_manager_url ns w)) = logged w @ [ERROR]
     \<and> trace (snd (configure_pod_manager_url ns w)) = trace w @ [ApiCall ReadService None]"
proof -
  have r: "fst (get_loadbalancer_url ''pod-manager-service'' ns w) = Inr None"
    using assms by (auto simp: get_loadbalancer_url_result)
  obtain out where o: "v1_read_namespaced_service ''pod-manager-service'' ns w =
      ((case out of Inl st \<Rightarrow> Inl (ApiException st) | Inr svc \<Rightarrow> Inr svc),
       w\<lparr>trace := trace w @ [ApiCall ReadService (case out of Inl st \<Rightarrow> Some st | Inr svc \<Rightarrow> None)]\<rparr>)"
    using read_service_result by blast
  with assms(2) have out: "out = Inr svc" by (cases out) auto
  have "snd (get_loadbalancer_url ''pod-manager-service'' ns w)
          = w\<lparr>trace := trace w @ [ApiCall ReadService None]\<rparr>"
    using assms(1,3) o out
    by (auto simp: get_loadbalancer_url_def seq_def try_except_def load_config_def ret_def)
  then show ?thesis
    using r by (simp add: configure_unresolved)
qed

theorem configure_pod_manager_url_unready_witness:
  "(kube_config (example_world (manager_with (Some [])) None)
      \<or> incluster_config (example_world (manager_with (Some [])) None))
   \<and> fst (v1_read_namespaced_service ''pod-manager-service'' ''jac-splice-orc''
            (example_world (manager_with (Some [])) None)) = Inr \<lparr>ingress = Some []\<rparr>
   \<and> fst (configure_pod_manager_url ''jac-splice-orc''
            (example_world (manager_with (Some [])) None)) = Inr ()
   \<and> env_file (snd (configure_pod_manager_url ''jac-splice-orc''
            (example_world (manager_with (Some [])) None))) = None
   \<and> logged (snd (configure_pod_manager_url ''jac-splice-orc''
            (example_world (manager_with (Some [])) None))) = [ERROR]"
proof -
  have a: "kube_config (example_world (manager_with (Some [])) None)
      \<or> incluster_config (example_world (manager_with (Some [])) None)"
    by (simp add: example_world_def)
  have b: "fst (v1_read_namespaced_service ''pod-manager-service'' ''jac-splice-orc''
            (example_world (manager_with (Some [])) None)) = Inr \<lparr>ingress = Some []\<rparr>"
    by (simp add: eval_defs)
  have c: "ingress \<lparr>ingress = Some []\<rparr> = None \<or> ingress \<lparr>ingress = Some []\<rparr> = Some []"
    by simp
  show ?thesis
    using a b configure_pod_manager_url_unready [OF a b c]
    by (simp add: example_world_def)
qed

text \<open>
  The claim as stated asks for an \<^verbatim>\<open>EndpointUnresolvedError\<close>, raised or returned. On a
  service without ingress the call returns \<^verbatim>\<open>None\<close>, as it does on success.
\<close>

theorem configure_pod_manager_url_unready_counterexample:
  "fst (configure_pod_manager_url ''jac-splice-orc'' (example_world (manager_with None) None))
     = Inr ()"
  by (simp add: configure_pod_manager_url_def eval_defs)

section \<open>Cluster bootstrap: properties\<close>

lemma create_service_account_steps:
  "create_service_account ns =
     seq (read_or_create (v1_read_namespaced_service_account ''smartimportsa'' ns)
            (v1_create_namespaced_service_account ns ''smartimportsa''))
       (\<lambda>_. create_role_and_binding ns ''smartimportsa'')"
  by (simp add: create_service_account_def read_or_create_def Let_def)

lemma create_role_and_binding_steps:
  "\<exists>role role_binding. create_role_and_binding ns sa =
     seq (read_or_create (rbac_read_namespaced_role ''smartimport-role'' ns)
            (rbac_create_namespaced_role ns ''smartimport-role'' role))
       (\<lambda>_. read_or_create (rbac_read_namespaced_role_binding ''smartimport-rolebinding'' ns)
            (rbac_create_namespaced_role_binding ns ''smartimport-rolebinding'' role_binding))"
  unfolding create_role_and_binding_def read_or_create_def Let_def by blast

lemma seq_ok: "fst (m w) = Inr x \<Longrightarrow> seq m f w = f x (snd (m w))"
  by (cases "m w") (simp add: seq_def)

lemma create_namespace_healthy:
  assumes "healthy w"
  shows "fst (create_namespace n w) = Inr ()
     \<and> healthy (snd (create_namespace n w))
     \<and> cluster (snd (create_namespace n w)) =
         (if n \<in> set (namespaces (cluster w)) then cluster w
          else (cluster w)\<lparr>namespaces := namespaces (cluster w) @ [n]\<rparr>)"
  using assms
  by (auto simp: healthy_def create_namespace_def v1_list_namespace_def v1_create_namespace_def
        prog_defs)

lemma service_account_step_healthy:
  assumes "healthy w" and "ns \<in> set (namespaces (cluster w))"
  shows "fst (read_or_create (v1_read_namespaced_service_account n ns)
                (v1_create_namespaced_service_account ns n) w) = Inr ()
     \<and> healthy (snd (read_or_create (v1_read_namespaced_service_account n ns)
                (v1_create_namespaced_service_account ns n) w))
     \<and> cluster (snd (read_or_create (v1_read_namespaced_service_account n ns)
                (v1_create_namespaced_service_account ns n) w)) =
         (if (ns, n) \<in> set (service_accounts (cluster w)) then cluster w
          else (cluster w)\<lparr>service_accounts := service_accounts (cluster w) @ [(ns, n)]\<rparr>)"
  using assms
  by (simp add: healthy_def read_or_create_def v1_read_namespaced_service_account_def
        v1_create_namespaced_service_account_def prog_defs)

lemma role_step_healthy:
  assumes "healthy w" and "ns \<in> set (namespaces (cluster w))"
  shows "fst (read_or_create (rbac_read_namespaced_role n ns)
                (rbac_create_namespaced_role ns n body) w) = Inr ()
     \<and> healthy (snd (read_or_create (rbac_read_namespaced_role n ns)
                (rbac_create_namespaced_role ns n body) w))
     \<and> cluster (snd (read_or_create (rbac_read_namespaced_role n ns)
                (rbac_create_namespaced_role ns n body) w)) =
         (if roles (cluster w) (ns, n) \<noteq> None then cluster w
          else (cluster w)\<lparr>roles := (roles (cluster w))((ns, n) \<mapsto> body)\<rparr>)"
  using assms
  by (cases "roles (cluster w) (ns, n)")
     (simp_all add: healthy_def read_or_create_def rbac_read_namespaced_role_def
        rbac_create_namespaced_role_def prog_defs)

lemma role_binding_step_healthy:
  assumes "healthy w" and "ns \<in> set (namespaces (cluster w))"
  shows "fst (read_or_create (rbac_read_namespaced_role_binding n ns)
                (rbac_create_namespaced_role_binding ns n body) w) = Inr ()
     \<and> healthy (snd (read_or_create (rbac_read_namespaced_role_binding n ns)
                (rbac_create_namespaced_role_binding ns n body) w))
     \<and> cluster (snd (read_or_create (rbac_read_namespaced_role_binding n ns)
                (rbac_create_namespaced_role_binding ns n body) w)) =
         (if role_bindings (cluster w) (ns, n) \<noteq> None then cluster w
          else (cluster w)\<lparr>role_bindings := (role_bindings (cluster w))((ns, n) \<mapsto> body)\<rparr>)"
  using assms
  by (cases "role_bindings (cluster w) (ns, n)")
     (simp_all add: healthy_def read_or_create_def rbac_read_namespaced_role_binding_def
        rbac_create_namespaced_role_binding_def prog_defs)

lemma ensure_ready_healthy:
  assumes "healthy w"
  shows "fst (ensure_ready w) = Inr ()
     \<and> healthy (snd (ensure_ready w))
     \<and> identity_present (cluster (snd (ensure_ready w)))
     \<and> (identity_present (cluster w) \<longrightarrow> cluster (snd (ensure_ready w)) = cluster w)"
proof -
  let ?ns = "''jac-splice-orc''"
  obtain role role_binding where rb: "create_role_and_binding ?ns ''smartimportsa'' =
     seq (read_or_create (rbac_read_namespaced_role ''smartimport-role'' ?ns)
            (rbac_create_namespaced_role ?ns ''smartimport-role'' role))
       (\<lambda>_. read_or_create (rbac_read_namespaced_role_binding ''smartimport-rolebinding'' ?ns)
            (rbac_create_namespaced_role_binding ?ns ''smartimport-rolebinding'' role_binding))"
    using create_role_and_binding_steps by blast
  define w1 where "w1 = snd (create_namespace ?ns w)"
  define w2 where "w2 = snd (read_or_create (v1_read_namespaced_service_account ''smartimportsa'' ?ns)
            (v1_create_namespaced_service_account ?ns ''smartimportsa'') w1)"
  define w3 where "w3 = snd (read_or_create (rbac_read_namespaced_role ''smartimport-role'' ?ns)
            (rbac_create_namespaced_role ?ns ''smartimport-role'' role) w2)"
  define w4 where "w4 = snd (read_or_create (rbac_read_namespaced_role_binding ''smartimport-rolebinding'' ?ns)
            (rbac_create_namespaced_role_binding ?ns ''smartimport-rolebinding'' role_binding) w3)"
  note s1 = create_namespace_healthy [OF assms, of ?ns, folded w1_def]
  have n1: "?ns \<in> set (namespaces (cluster w1))" using s1 by (simp split: if_splits)
  note s2 = service_account_step_healthy [OF _ n1, of "''smartimportsa''", folded w2_def]
  have h1: "healthy w1" using s1 by simp
  have n2: "?ns \<in> set (namespaces (cluster w2))" using s2 [OF h1] n1 by (simp split: if_splits)
  have h2: "healthy w2" using s2 [OF h1] by simp
  note s3 = role_step_healthy [OF h2 n2, of "''smartimport-role''" role, folded w3_def]
  have n3: "?ns \<in> set (namespaces (cluster w3))" using s3 n2 by (simp split: if_splits)
  have h3: "healthy w3" using s3 by simp
  note s4 = role_binding_step_healthy [OF h3 n3, of "''smartimport-rolebinding''" role_binding, folded w4_def]
  have run: "ensure_ready w = (Inr (), w4)"
    unfolding ensure_ready_def Let_def
    apply (subst seq_ok [where x = "()"]) using s1 apply simp
    apply (fold w1_def)
    apply (subst create_service_account_steps)
    apply (subst seq_ok [where x = "()"]) using s2 [OF h1] apply simp
    apply (fold w2_def)
    apply (subst rb)
    apply (subst seq_ok [where x = "()"]) using s3 apply simp
    apply (fold w3_def)
    using s4 by (simp add: w4_def prod_eq_iff)
  have c1: "cluster w1 = (if ?ns \<in> set (namespaces (cluster w)) then cluster w
          else (cluster w)\<lparr>namespaces := namespaces (cluster w) @ [?ns]\<rparr>)" using s1 by simp
  have c2: "cluster w2 = (if (?ns, ''smartimportsa'') \<in> set (service_accounts (cluster w1)) then cluster w1
          else (cluster w1)\<lparr>service_accounts := service_accounts (cluster w1) @ [(?ns, ''smartimportsa'')]\<rparr>)"
    using s2 [OF h1] by simp
  have c3: "cluster w3 = (if roles (cluster w2) (?ns, ''smartimport-role'') \<noteq> None then cluster w2
          else (cluster w2)\<lparr>roles := (roles (cluster w2))((?ns, ''smartimport-role'') \<mapsto> role)\<rparr>)"
    using s3 by simp
  have c4: "cluster w4 = (if role_bindings (cluster w3) (?ns, ''smartimport-rolebinding'') \<noteq> None then cluster w3
          else (cluster w3)\<lparr>role_bindings := (role_bindings (cluster w3))((?ns, ''smartimport-rolebinding'') \<mapsto> role_binding)\<rparr>)"
    using s4 by simp
  have p: "identity_present (cluster w4)"
    unfolding identity_present_def c4 c3 c2 c1 by simp
  have q: "identity_present (cluster w) \<longrightarrow> cluster w4 = cluster w"
    unfolding identity_present_def c4 c3 c2 c1 by simp
  show ?thesis using run s4 p q by simp
qed

text \<open>
  Claim C3. From any state of the cluster, with a client that can be configured and a
  control plane that rejects nothing of its own accord, the bootstrap succeeds, leaves
  the namespace, the service account, the role and the role binding of the fixed names in
  place, and a second run right after succeeds too and leaves the cluster as the first
  run left it.
\<close>

theorem ensure_ready_idempotent:
  assumes "kube_config w \<or> incluster_config w"
      and "api_fault (cluster w) = (\<lambda>op. None)"
  shows "fst (ensure_ready w) = Inr ()
     \<and> identity_present (cluster (snd (ensure_ready w)))
     \<and> fst (ensure_ready (snd (ensure_ready w))) = Inr ()
     \<and> cluster (snd (ensure_ready (snd (ensure_ready w)))) = cluster (snd (ensure_ready w))"
proof -
  have h: "healthy w"
    using assms by (simp add: healthy_def)
  note first = ensure_ready_healthy [OF h]
  then have "healthy (snd (ensure_ready w))"
    by simp
  from ensure_ready_healthy [OF this] first show ?thesis
    by simp
qed

theorem ensure_ready_idempotent_witness:
  "(kube_config empty_world \<or> incluster_config empty_world)
   \<and> api_fault (cluster empty_world) = (\<lambda>op. None)
   \<and> fst (ensure_ready empty_world) = Inr ()
   \<and> identity_present (cluster (snd (ensure_ready empty_world)))
   \<and> fst (ensure_ready (snd (ensure_ready empty_world))) = Inr ()
   \<and> cluster (snd (ensure_ready (snd (ensure_ready empty_world))))
       = cluster (snd (ensure_ready empty_world))"
proof -
  have a: "kube_config empty_world \<or> incluster_config empty_world"
    by (simp add: empty_world_def)
  have b: "api_fault (cluster empty_world) = (\<lambda>op. None)"
    by (simp add: empty_world_def)
  show ?thesis
    using a b ensure_ready_idempotent [OF a b] by blast
qed

lemma loud_Nil: "loud r []"
  by (simp add: loud_def)

lemma loud_append:
  assumes "loud (Inr x) evs1" and "loud r evs2"
  shows "loud r (evs1 @ evs2)"
  unfolding loud_def
proof (intro allI impI)
  fix pre post op st
  assume eq: "evs1 @ evs2 = pre @ ApiCall op (Some st) # post"
     and nt: "\<not> not_found_on_read op st"
  from eq consider us where "evs1 = pre @ us" "us @ evs2 = ApiCall op (Some st) # post"
    | us where "evs1 @ us = pre" "evs2 = us @ ApiCall op (Some st) # post"
    by (auto simp: append_eq_append_conv2)
  then show "post = [] \<and> r = Inl (ApiException st)"
  proof cases
    case 1
    show ?thesis
    proof (cases us)
      case Nil
      with 1 have "evs2 = [] @ ApiCall op (Some st) # post" by simp
      with assms(2) nt show ?thesis unfolding loud_def by blast
    next
      case (Cons u us')
      with 1 have "evs1 = pre @ ApiCall op (Some st) # us'" by simp
      with assms(1) nt have "Inr x = Inl (ApiException st)" unfolding loud_def by blast
      then show ?thesis by simp
    qed
  next
    case 2
    with assms(2) nt show ?thesis unfolding loud_def by blast
  qed
qed

lemma loud_prog_silent:
  assumes "\<And>w. trace (snd (m w)) = trace w"
  shows "loud_prog m"
  unfolding loud_prog_def using assms by (simp add: loud_Nil)

lemma loud_prog_logging: "loud_prog (logging l)"
  by (rule loud_prog_silent) (simp add: logging_def)

lemma loud_prog_load_config: "loud_prog load_config"
  by (rule loud_prog_silent) (simp add: load_config_def)

lemma loud_prog_seq:
  assumes "loud_prog m" and "\<And>x. loud_prog (f x)"
  shows "loud_prog (seq m f)"
  unfolding loud_prog_def
proof
  fix w
  obtain evs1 where 1: "trace (snd (m w)) = trace w @ evs1" "loud (fst (m w)) evs1"
    using assms(1) unfolding loud_prog_def by blast
  show "\<exists>evs. trace (snd (seq m f w)) = trace w @ evs \<and> loud (fst (seq m f w)) evs"
  proof (cases "fst (m w)")
    case (Inl e)
    then have "seq m f w = (Inl e, snd (m w))"
      by (cases "m w") (simp add: seq_def)
    with 1 Inl show ?thesis unfolding loud_def by auto
  next
    case (Inr x)
    then have s: "seq m f w = f x (snd (m w))"
      by (cases "m w") (simp add: seq_def)
    obtain evs2 where 2: "trace (snd (f x (snd (m w)))) = trace (snd (m w)) @ evs2"
        "loud (fst (f x (snd (m w)))) evs2"
      using assms(2) unfolding loud_prog_def by blast
    have "loud (fst (seq m f w)) (evs1 @ evs2)"
      using loud_append [of x evs1] 1 2 Inr s by simp
    with 1 2 s show ?thesis by auto
  qed
qed

lemma loud_prog_if:
  assumes "loud_prog m" and "loud_prog n"
  shows "loud_prog (if b then m else n)"
  using assms by simp

lemma loud_single:
  "loud r [ApiCall op x] =
     (case x of None \<Rightarrow> True | Some st \<Rightarrow> \<not> not_found_on_read op st \<longrightarrow> r = Inl (ApiException st))"
  by (cases x) (auto simp: loud_def Cons_eq_append_conv)

lemma request_run:
  "\<exists>x. trace (snd (request op sem w)) = trace w @ [ApiCall op x]
      \<and> (case x of None \<Rightarrow> (\<exists>v. fst (request op sem w) = Inr v)
          | Some st \<Rightarrow> fst (request op sem w) = Inl (ApiException st))"
  by (cases "api_fault (cluster w) op"; cases "sem (cluster w)")
     (auto simp: request_def)

lemma loud_prog_request: "loud_prog (request op sem)"
  unfolding loud_prog_def
proof
  fix w
  obtain x where "trace (snd (request op sem w)) = trace w @ [ApiCall op x]"
      "case x of None \<Rightarrow> (\<exists>v. fst (request op sem w) = Inr v)
          | Some st \<Rightarrow> fst (request op sem w) = Inl (ApiException st)"
    using request_run by blast
  then show "\<exists>evs. trace (snd (request op sem w)) = trace w @ evs
      \<and> loud (fst (request op sem w)) evs"
    by (cases x) (auto simp: loud_single)
qed

lemma loud_prog_read_or_create:
  assumes "not_found_on_read rop 404"
  shows "loud_prog (read_or_create (request rop rsem) (request cop csem))"
  unfolding loud_prog_def
proof
  fix w
  let ?m = "read_or_create (request rop rsem) (request cop csem)"
  obtain x where r: "trace (snd (request rop rsem w)) = trace w @ [ApiCall rop x]"
      "case x of None \<Rightarrow> (\<exists>v. fst (request rop rsem w) = Inr v)
          | Some st \<Rightarrow> fst (request rop rsem w) = Inl (ApiException st)"
    using request_run by blast
  show "\<exists>evs. trace (snd (?m w)) = trace w @ evs \<and> loud (fst (?m w)) evs"
  proof (cases x)
    case None
    with r obtain v where "fst (request rop rsem w) = Inr v" by auto
    then have "?m w = (Inr (), (snd (request rop rsem w))\<lparr>logged := logged (snd (request rop rsem w)) @ [INFO]\<rparr>)"
      by (cases "request rop rsem w") (simp add: read_or_create_def try_except_def seq_def logging_def)
    with r None show ?thesis by (simp add: loud_single)
  next
    case (Some st)
    with r have f: "fst (request rop rsem w) = Inl (ApiException st)" by simp
    show ?thesis
    proof (cases "st = 404")
      case False
      with f have "?m w = (Inl (ApiException st), (snd (request rop rsem w))\<lparr>logged := logged (snd (request rop rsem w)) @ [ERROR]\<rparr>)"
        by (cases "request rop rsem w") (simp add: read_or_create_def try_except_def seq_def logging_def raise_def)
      with r Some show ?thesis by (simp add: loud_single)
    next
      case True
      let ?w1 = "snd (request rop rsem w)"
      let ?c = "seq (request cop csem) (\<lambda>_. logging INFO)"
      from True f have m: "?m w = ?c ?w1"
        by (cases "request rop rsem w") (simp add: read_or_create_def try_except_def seq_def)
      have "loud_prog ?c"
        by (intro loud_prog_seq loud_prog_request loud_prog_logging)
      then obtain evs2 where 2: "trace (snd (?c ?w1)) = trace ?w1 @ evs2" "loud (fst (?c ?w1)) evs2"
        unfolding loud_prog_def by blast
      have "loud (Inr ()) [ApiCall rop (Some 404)]"
        using assms by (simp add: loud_single)
      then have "loud (fst (?c ?w1)) ([ApiCall rop (Some 404)] @ evs2)"
        using 2(2) by (rule loud_append)
      with r 2 m Some True show ?thesis by auto
    qed
  qed
qed

lemma loud_prog_create_role_and_binding: "loud_prog (create_role_and_binding ns sa)"
proof -
  obtain role role_binding where rb: "create_role_and_binding ns sa =
     seq (read_or_create (rbac_read_namespaced_role ''smartimport-role'' ns)
            (rbac_create_namespaced_role ns ''smartimport-role'' role))
       (\<lambda>_. read_or_create (rbac_read_namespaced_role_binding ''smartimport-rolebinding'' ns)
            (rbac_create_namespaced_role_binding ns ''smartimport-rolebinding'' role_binding))"
    using create_role_and_binding_steps by blast
  show ?thesis
    unfolding rb rbac_read_namespaced_role_def rbac_create_namespaced_role_def
      rbac_read_namespaced_role_binding_def rbac_create_namespaced_role_binding_def
    by (intro loud_prog_seq loud_prog_read_or_create) (simp_all add: not_found_on_read_def)
qed

lemma loud_prog_create_service_account: "loud_prog (create_service_account ns)"
  unfolding create_service_account_steps v1_read_namespaced_service_account_def
    v1_create_namespaced_service_account_def
  by (intro loud_prog_seq loud_prog_read_or_create loud_prog_create_role_and_binding)
     (simp add: not_found_on_read_def)

lemma loud_prog_create_namespace: "loud_prog (create_namespace n)"
  unfolding create_namespace_def v1_list_namespace_def v1_create_namespace_def
  by (intro loud_prog_seq loud_prog_if loud_prog_request loud_prog_logging loud_prog_load_config)

lemma loud_prog_ensure_ready: "loud_prog ensure_ready"
  unfolding ensure_ready_def Let_def
  by (intro loud_prog_seq loud_prog_create_namespace loud_prog_create_service_account)

text \<open>
  Claim C8. Whenever a request of the bootstrap fails, other than a read of the service
  account, the role or the role binding answered with 404, that request is the last one
  the bootstrap makes and the bootstrap raises that very exception: nothing is swallowed
  and no later step runs. This covers every status other than 404 and 409, on the reads
  and on the creates.
\<close>

theorem ensure_ready_propagates:
  assumes "trace (snd (ensure_ready w)) = trace w @ pre @ ApiCall op (Some st) # post"
      and "\<not> not_found_on_read op st"
  shows "post = [] \<and> fst (ensure_ready w) = Inl (ApiException st)"
proof -
  obtain evs where "trace (snd (ensure_ready w)) = trace w @ evs" "loud (fst (ensure_ready w)) evs"
    using loud_prog_ensure_ready unfolding loud_prog_def by blast
  with assms show ?thesis unfolding loud_def by auto
qed

lemmas bootstrap_defs = ensure_ready_def create_namespace_def create_service_account_def
  create_role_and_binding_def v1_list_namespace_def v1_create_namespace_def
  v1_read_namespaced_service_account_def v1_create_namespaced_service_account_def
  rbac_read_namespaced_role_def rbac_create_namespaced_role_def
  rbac_read_namespaced_role_binding_def rbac_create_namespaced_role_binding_def

theorem ensure_ready_propagates_witness:
  "trace (snd (ensure_ready forbidden_world)) =
     trace forbidden_world
       @ [ApiCall ListNamespace None, ApiCall CreateNamespace None,
          ApiCall ReadServiceAccount (Some 404), ApiCall CreateServiceAccount None]
       @ ApiCall ReadRole (Some 403) # []
   \<and> \<not> not_found_on_read ReadRole 403
   \<and> fst (ensure_ready forbidden_world) = Inl (ApiException 403)"
proof -
  have a: "trace (snd (ensure_ready forbidden_world)) =
     trace forbidden_world
       @ [ApiCall ListNamespace None, ApiCall CreateNamespace None,
          ApiCall ReadServiceAccount (Some 404), ApiCall CreateServiceAccount None]
       @ ApiCall ReadRole (Some 403) # []"
    by (simp add: forbidden_world_def empty_world_def bootstrap_defs prog_defs Let_def)
  have b: "\<not> not_found_on_read ReadRole 403"
    by (simp add: not_found_on_read_def)
  show ?thesis
    using a b ensure_ready_propagates [OF a b] by blast
qed

section \<open>Import routing: properties\<close>

lemmas import_defs = jac_import_def load_type_remote_def getenv_def module_proxy_def
  run_python_import_def run_jac_import_def attach_program_def

lemmas example_defs = example_host_def spec_module_proxy_def example_importer_def
  empty_world_def items_truthy_def

lemma jac_import_remote:
  assumes "module_config h target = Some cfg" and "cfg ''load_type'' = Some ''remote''"
  shows "jac_import h target base_path absorb cachable mdl_alias override_name lng items
           reload_module w =
     (case get_module_proxy h (environ w ''POD_MANAGER_URL'') target cfg of
        Inl e \<Rightarrow> (Inl e, w\<lparr>trace := trace w @ [Getenv ''POD_MANAGER_URL'',
                     ModuleProxyCall (environ w ''POD_MANAGER_URL'') target]\<rparr>)
      | Inr p \<Rightarrow> (Inr [p], w\<lparr>trace := trace w @ [Getenv ''POD_MANAGER_URL'',
                     ModuleProxyCall (environ w ''POD_MANAGER_URL'') target],
                     logged := logged w @ [INFO]\<rparr>))"
  using assms
  by (simp add: import_defs prog_defs split: sum.splits)

lemma jac_import_local:
  assumes "module_config h target = None
     \<or> (\<exists>cfg t. module_config h target = Some cfg \<and> cfg ''load_type'' = Some t
           \<and> t \<noteq> ''remote'')"
  shows "jac_import h target base_path absorb cachable mdl_alias override_name lng items
           reload_module w =
     (let spec = \<lparr>spec_target = target, spec_base_path = base_path, spec_absorb = absorb,
            spec_cachable = cachable, spec_mdl_alias = mdl_alias,
            spec_override_name = override_name, spec_lng = lng, spec_items = items\<rparr>;
          w' = (if jac_program w then w else w\<lparr>jac_program := True\<rparr>)
            \<lparr>trace := trace w @ [if lng = Some ''py'' then PythonRunImport spec
                                  else JacRunImport spec reload_module]\<rparr>
      in case (if lng = Some ''py'' then python_run_import h spec
               else jac_run_import h spec reload_module) of
           Inl e \<Rightarrow> (Inl e, w')
         | Inr r \<Rightarrow>
             (Inr (if absorb \<or> \<not> items_truthy items then [ret_mod r] else ret_items r), w'))"
  using assms
  by (auto simp: import_defs prog_defs Let_def split: sum.splits)

text \<open>
  Claim C1, as the code has it. For a target configured with load type remote and no
  \<^verbatim>\<open>POD_MANAGER_URL\<close> in the environment, \<^verbatim>\<open>jac_import\<close> makes no check of its own: it
  reads the variable, hands the absent endpoint to the module proxy, and returns the proxy
  it gets as a one-element tuple, or raises what the proxy raises. It makes no request to
  the control plane and leaves the cluster and the \<^verbatim>\<open>.env\<close> file as they were.
\<close>

theorem jac_import_remote_without_endpoint:
  assumes "module_config h target = Some cfg"
      and "cfg ''load_type'' = Some ''remote''"
      and "environ w ''POD_MANAGER_URL'' = None"
  shows "fst (jac_import h target base_path absorb cachable mdl_alias override_name lng items
            reload_module w) =
       (case get_module_proxy h None target cfg of Inl e \<Rightarrow> Inl e | Inr p \<Rightarrow> Inr [p])
     \<and> trace (snd (jac_import h target base_path absorb cachable mdl_alias override_name lng items
            reload_module w)) = trace w @ [Getenv ''POD_MANAGER_URL'', ModuleProxyCall None target]
     \<and> cluster (snd (jac_import h target base_path absorb cachable mdl_alias override_name lng items
            reload_module w)) = cluster w
     \<and> env_file (snd (jac_import h target base_path absorb cachable mdl_alias override_name lng items
            reload_module w)) = env_file w"
  using assms(3)
  by (simp add: jac_import_remote [OF assms(1,2)] split: sum.splits)

theorem jac_import_remote_without_endpoint_witness:
  "module_config example_host ''numpy'' = Some [''load_type'' \<mapsto> ''remote'']
   \<and> [''load_type'' \<mapsto> ''remote''] ''load_type'' = Some ''remote''
   \<and> environ empty_world ''POD_MANAGER_URL'' = None
   \<and> fst (jac_import example_host ''numpy'' ''.'' False True None None None None None
        empty_world) = Inr [ProxyObj None ''numpy'']
   \<and> trace (snd (jac_import example_host ''numpy'' ''.'' False True None None None None None
        empty_world)) = [Getenv ''POD_MANAGER_URL'', ModuleProxyCall None ''numpy'']
   \<and> cluster (snd (jac_import example_host ''numpy'' ''.'' False True None None None None None
        empty_world)) = cluster empty_world"
proof -
  have a: "module_config example_host ''numpy'' = Some [''load_type'' \<mapsto> ''remote'']"
    by (simp add: example_host_def)
  have b: "[''load_type'' \<mapsto> ''remote''] ''load_type'' = Some ''remote''"
    by simp
  have c: "environ empty_world ''POD_MANAGER_URL'' = None"
    by (simp add: empty_world_def)
  show ?thesis
    using a b c
      jac_import_remote_without_endpoint [OF a b c, of "''.''" False True None None None None None]
    by (simp add: example_host_def spec_module_proxy_def empty_world_def)
qed

text \<open>
  The claim as stated asks for a \<^verbatim>\<open>ConfigurationError\<close>. With a proxy factory that follows
  the contract of the spec, the import of a remote module without a persisted endpoint
  returns normally, with a proxy built on the absent endpoint.
\<close>

theorem jac_import_remote_without_endpoint_counterexample:
  "fst (jac_import example_host ''numpy'' ''.'' False True None None None None None empty_world)
     = Inr [ProxyObj None ''numpy'']"
  by (simp add: import_defs prog_defs example_defs)

text \<open>
  Claim C5. When the target has no module configuration, or one whose load type is not
  remote (local in particular), the only call \<^verbatim>\<open>jac_import\<close> makes is to the local
  importer for the request's language, with the request unchanged: it reads no endpoint
  and calls no proxy. When the load type is remote, the only calls are the read of the
  endpoint and the call of the module proxy: the local importer is not called.
\<close>

theorem jac_import_routing:
  "(module_config h target = None
      \<or> (\<exists>cfg t. module_config h target = Some cfg \<and> cfg ''load_type'' = Some t
            \<and> t \<noteq> ''remote'')
    \<longrightarrow> trace (snd (jac_import h target base_path absorb cachable mdl_alias override_name lng items
            reload_module w)) =
          trace w @ [if lng = Some ''py'' then PythonRunImport \<lparr>spec_target = target, spec_base_path = base_path, spec_absorb = absorb,
            spec_cachable = cachable, spec_mdl_alias = mdl_alias,
            spec_override_name = override_name, spec_lng = lng, spec_items = items\<rparr>
                     else JacRunImport \<lparr>spec_target = target, spec_base_path = base_path, spec_absorb = absorb,
            spec_cachable = cachable, spec_mdl_alias = mdl_alias,
            spec_override_name = override_name, spec_lng = lng, spec_items = items\<rparr> reload_module])
   \<and> ((\<exists>cfg. module_config h target = Some cfg \<and> cfg ''load_type'' = Some ''remote'')
    \<longrightarrow> trace (snd (jac_import h target base_path absorb cachable mdl_alias override_name lng items
            reload_module w)) =
          trace w @ [Getenv ''POD_MANAGER_URL'',
                     ModuleProxyCall (environ w ''POD_MANAGER_URL'') target])"
proof (intro conjI impI)
  assume "module_config h target = None
      \<or> (\<exists>cfg t. module_config h target = Some cfg \<and> cfg ''load_type'' = Some t
            \<and> t \<noteq> ''remote'')"
  then show "trace (snd (jac_import h target base_path absorb cachable mdl_alias override_name lng items
            reload_module w)) =
          trace w @ [if lng = Some ''py'' then PythonRunImport \<lparr>spec_target = target, spec_base_path = base_path, spec_absorb = absorb,
            spec_cachable = cachable, spec_mdl_alias = mdl_alias,
            spec_override_name = override_name, spec_lng = lng, spec_items = items\<rparr>
                     else JacRunImport \<lparr>spec_target = target, spec_base_path = base_path, spec_absorb = absorb,
            spec_cachable = cachable, spec_mdl_alias = mdl_alias,
            spec_override_name = override_name, spec_lng = lng, spec_items = items\<rparr> reload_module]"
    by (simp add: jac_import_local Let_def split: sum.splits)
next
  assume "\<exists>cfg. module_config h target = Some cfg \<and> cfg ''load_type'' = Some ''remote''"
  then obtain cfg where "module_config h target = Some cfg" "cfg ''load_type'' = Some ''remote''"
    by blast
  then show "trace (snd (jac_import h target base_path absorb cachable mdl_alias override_name lng items
            reload_module w)) =
          trace w @ [Getenv ''POD_MANAGER_URL'',
                     ModuleProxyCall (environ w ''POD_MANAGER_URL'') target]"
    by (simp add: jac_import_remote split: sum.splits)
qed

theorem jac_import_routing_witness:
  "(\<exists>cfg t. module_config example_host ''pkg.mod'' = Some cfg \<and> cfg ''load_type'' = Some t
       \<and> t \<noteq> ''remote'')
   \<and> trace (snd (jac_import example_host ''pkg.mod'' ''.'' False True None None (Some ''py'')
        None None empty_world)) =
       [PythonRunImport \<lparr>spec_target = ''pkg.mod'', spec_base_path = ''.'', spec_absorb = False,
            spec_cachable = True, spec_mdl_alias = None, spec_override_name = None,
            spec_lng = Some ''py'', spec_items = None\<rparr>]
   \<and> module_config example_host ''absent'' = None
   \<and> trace (snd (jac_import example_host ''absent'' ''.'' False True None None None
        None (Some True) empty_world)) =
       [JacRunImport \<lparr>spec_target = ''absent'', spec_base_path = ''.'', spec_absorb = False,
            spec_cachable = True, spec_mdl_alias = None, spec_override_name = None,
            spec_lng = None, spec_items = None\<rparr> (Some True)]
   \<and> (\<exists>cfg. module_config example_host ''numpy'' = Some cfg
         \<and> cfg ''load_type'' = Some ''remote'')
   \<and> trace (snd (jac_import example_host ''numpy'' ''.'' False True None None (Some ''py'')
        None None empty_world)) =
       [Getenv ''POD_MANAGER_URL'', ModuleProxyCall None ''numpy'']"
proof -
  have a: "\<exists>cfg t. module_config example_host ''pkg.mod'' = Some cfg
      \<and> cfg ''load_type'' = Some t \<and> t \<noteq> ''remote''"
    by (simp add: example_host_def)
  have b: "module_config example_host ''absent'' = None"
    by (simp add: example_host_def)
  have c: "\<exists>cfg. module_config example_host ''numpy'' = Some cfg
      \<and> cfg ''load_type'' = Some ''remote''"
    by (simp add: example_host_def)
  show ?thesis
    using a b c
      jac_import_routing [of example_host "''pkg.mod''" "''.''" False True None None "Some ''py''"
        None None empty_world]
      jac_import_routing [of example_host "''absent''" "''.''" False True None None None
        None "Some True" empty_world]
      jac_import_routing [of example_host "''numpy''" "''.''" False True None None "Some ''py''"
        None None empty_world]
    by (simp add: empty_world_def)
qed




section \<open>Persisting the endpoint: properties\<close>

lemma strip_by_subset: "set (rev (dropWhile P (rev (dropWhile P s)))) \<subseteq> set s"
  by (auto dest!: set_dropWhileD)

lemma strip_by_ends:
  assumes "rev (dropWhile P (rev (dropWhile P s))) \<noteq> []"
  shows "\<not> P (hd (rev (dropWhile P (rev (dropWhile P s)))))
       \<and> \<not> P (last (rev (dropWhile P (rev (dropWhile P s)))))"
proof -
  let ?t = "dropWhile P s"
  let ?u = "dropWhile P (rev ?t)"
  from assms have u: "?u \<noteq> []" by simp
  then have t: "?t \<noteq> []" by (cases "?t") auto
  have 1: "\<not> P (hd ?u)" using u by (rule hd_dropWhile)
  have 2: "\<not> P (hd ?t)" using t by (rule hd_dropWhile)
  have "rev ?t = takeWhile P (rev ?t) @ ?u" by simp
  then have "last (rev ?t) = last ?u" using u by (metis last_appendR)
  then have "last ?u = hd ?t" using t by (simp add: last_rev)
  with 1 2 u show ?thesis by (simp add: hd_rev last_rev)
qed

lemma strip_by_id:
  assumes "s \<noteq> []" and "\<not> P (hd s)" and "\<not> P (last s)"
  shows "rev (dropWhile P (rev (dropWhile P s))) = s"
proof -
  have "dropWhile P s = s" using assms by (cases s) auto
  moreover have "dropWhile P (rev s) = rev s"
    using assms by (cases "rev s") (auto simp: last_rev [symmetric] hd_rev)
  ultimately show ?thesis by simp
qed

lemma strip_by_snoc:
  assumes "P c"
  shows "rev (dropWhile P (rev (dropWhile P (s @ [c])))) = rev (dropWhile P (rev (dropWhile P s)))"
proof (cases "\<forall>x\<in>set s. P x")
  case True
  with assms show ?thesis by (auto simp: dropWhile_append dest: set_dropWhileD)
next
  case False
  with assms show ?thesis by (auto simp: dropWhile_append)
qed

lemma strip_by_Cons:
  assumes "P c"
  shows "rev (dropWhile P (rev (dropWhile P (c # s)))) = rev (dropWhile P (rev (dropWhile P s)))"
  using assms by simp

lemma isspace_simps [simp]: "isspace LF" "isspace CR" "\<not> isspace DQ" "\<not> isspace EQ"
  by (simp_all add: isspace_def)


lemma strip_pair_line:
  assumes "key_ok k"
  shows "strip (k @ [EQ, DQ] @ v @ [DQ, LF]) = k @ [EQ, DQ] @ v @ [DQ]"
proof -
  have "k @ [EQ, DQ] @ v @ [DQ, LF] = (k @ [EQ, DQ] @ v @ [DQ]) @ [LF]" by simp
  then have "strip (k @ [EQ, DQ] @ v @ [DQ, LF])
      = rev (dropWhile isspace (rev (dropWhile isspace (k @ [EQ, DQ] @ v @ [DQ]))))"
    unfolding strip_def by (simp only: strip_by_snoc [of isspace LF] isspace_simps)
  also have "\<dots> = k @ [EQ, DQ] @ v @ [DQ]"
  proof (rule strip_by_id)
    show "\<not> isspace (hd (k @ [EQ, DQ] @ v @ [DQ]))"
      using assms by (cases k) (auto simp: key_ok_def)
  qed simp_all
  finally show ?thesis .
qed

lemma split_eq_pair:
  assumes "EQ \<notin> set k"
  shows "split_eq (k @ EQ # rest) = [k, rest]"
  using assms by (simp add: split_eq_def takeWhile_append dropWhile_append)

lemma strip_chars_quoted:
  assumes "value_ok v"
  shows "strip_chars [DQ] (DQ # v @ [DQ]) = v"
proof (cases "v = []")
  case True
  then show ?thesis by (simp add: strip_chars_def)
next
  case False
  have "strip_chars [DQ] (DQ # v @ [DQ])
      = rev (dropWhile (\<lambda>c. c \<in> set [DQ]) (rev (dropWhile (\<lambda>c. c \<in> set [DQ]) (DQ # v))))"
    unfolding strip_chars_def
    using strip_by_snoc [of "\<lambda>c. c \<in> set [DQ]" DQ "DQ # v"] by simp
  also have "\<dots> = rev (dropWhile (\<lambda>c. c \<in> set [DQ]) (rev (dropWhile (\<lambda>c. c \<in> set [DQ]) v)))"
    by simp
  also have "\<dots> = v"
    using False assms by (intro strip_by_id) (auto simp: value_ok_def)
  finally show ?thesis .
qed

lemma readlines_line:
  assumes "LF \<notin> set s"
  shows "readlines cur (s @ LF # rest) = (cur @ s @ [LF]) # readlines [] rest"
  using assms by (induction s arbitrary: cur) auto

lemma universal_newlines_id:
  assumes "CR \<notin> set s"
  shows "universal_newlines s = s"
  using assms by (induction s rule: universal_newlines.induct) auto

lemma universal_newlines_no_CR: "CR \<notin> set (universal_newlines s)"
  by (induction s rule: universal_newlines.induct) auto

lemma update_fresh:
  assumes "k \<notin> fst ` set al"
  shows "AList.update k v al = al @ [(k, v)]"
  using assms by (induction al) auto

lemma set_update: "set (AList.update k v al) \<subseteq> insert (k, v) (set al)"
  by (induction al) auto

lemma store_ok_update:
  assumes "store_ok al" and "key_ok k" and "value_ok v"
  shows "store_ok (AList.update k v al)"
  using assms set_update [of k v al]
  unfolding store_ok_def by (auto simp: distinct_update)

lemma no_CR_write_env_lines:
  assumes "store_ok env_vars"
  shows "CR \<notin> set (write_env_lines env_vars)"
  using assms
  by (induction env_vars rule: write_env_lines.induct) (auto simp: store_ok_def key_ok_def value_ok_def)

lemma read_written_lines:
  assumes "store_ok env_vars" and "fst ` set acc \<inter> fst ` set env_vars = {}"
  shows "read_env_lines acc (readlines [] (write_env_lines env_vars)) = Inr (acc @ env_vars)"
  using assms
proof (induction env_vars arbitrary: acc rule: write_env_lines.induct)
  case 1
  then show ?case by simp
next
  case (2 key "value" kvs)
  from "2.prems" have k: "key_ok key" and v: "value_ok value" and rest: "store_ok kvs"
    and fresh: "key \<notin> fst ` set acc" and dist: "key \<notin> fst ` set kvs"
    by (auto simp: store_ok_def)
  have nl: "LF \<notin> set (key @ [EQ, DQ] @ value @ [DQ])"
    using k v by (simp add: key_ok_def value_ok_def)
  have lines: "readlines [] (write_env_lines ((key, value) # kvs))
      = (key @ [EQ, DQ] @ value @ [DQ, LF]) # readlines [] (write_env_lines kvs)"
    using readlines_line [OF nl, of "[]" "write_env_lines kvs"] by simp
  have "fst ` set (acc @ [(key, value)]) \<inter> fst ` set kvs = {}"
    using "2.prems"(2) dist by auto
  from "2.IH" [OF rest this]
  have ih: "read_env_lines (acc @ [(key, value)]) (readlines [] (write_env_lines kvs))
      = Inr (acc @ (key, value) # kvs)"
    by simp
  have sp: "split_eq (key @ [EQ, DQ] @ value @ [DQ]) = [key, DQ # value @ [DQ]]"
    using split_eq_pair [of key "DQ # value @ [DQ]"] k by (simp add: key_ok_def)
  have step: "read_env_lines acc ((key @ [EQ, DQ] @ value @ [DQ, LF]) # ls)
      = read_env_lines (acc @ [(key, value)]) ls" for ls
    using fresh
    by (simp only: read_env_lines.simps strip_pair_line [OF k] sp)
       (simp add: strip_chars_quoted [OF v] update_fresh)
  show ?case
    unfolding lines step ih ..
qed


lemma readlines_ok:
  assumes "LF \<notin> set cur" and "CR \<notin> set cur" and "CR \<notin> set s"
  shows "\<forall>l \<in> set (readlines cur s). line_ok l"
  using assms
proof (induction s arbitrary: cur)
  case Nil
  then show ?case by (auto simp: line_ok_def dest: in_set_butlastD)
next
  case (Cons c s)
  show ?case
  proof (cases "c = LF")
    case True
    have "line_ok (cur @ [c])" using Cons.prems True by (simp add: line_ok_def)
    moreover have "\<forall>l \<in> set (readlines [] s). line_ok l"
      using Cons.prems by (intro Cons.IH) simp_all
    ultimately show ?thesis using True by simp
  next
    case False
    have "\<forall>l \<in> set (readlines (cur @ [c]) s). line_ok l"
      using Cons.prems False by (intro Cons.IH) simp_all
    then show ?thesis using False by simp
  qed
qed

lemma strip_line_ok:
  assumes "line_ok l"
  shows "LF \<notin> set (strip l) \<and> CR \<notin> set (strip l)"
proof (cases "l = []")
  case True
  then show ?thesis by (simp add: strip_def)
next
  case False
  then have l: "l = butlast l @ [last l]" by simp
  show ?thesis
  proof (cases "last l = LF")
    case True
    with l have "strip l = strip (butlast l)"
      unfolding strip_def using strip_by_snoc [of isspace LF "butlast l"] by simp
    moreover have "set (strip (butlast l)) \<subseteq> set (butlast l)"
      unfolding strip_def by (rule strip_by_subset)
    moreover have "set (butlast l) \<subseteq> set l" by (auto dest: in_set_butlastD)
    ultimately show ?thesis using assms by (auto simp: line_ok_def)
  next
    case False
    have "set l = set (butlast l) \<union> {last l}"
      by (subst l) (simp only: set_append list.set Un_commute)
    with False assms have "LF \<notin> set l"
      by (auto simp: line_ok_def)
    moreover have "set (strip l) \<subseteq> set l"
      unfolding strip_def by (rule strip_by_subset)
    ultimately show ?thesis using assms by (auto simp: line_ok_def)
  qed
qed

lemma parsed_key_ok:
  assumes "line_ok l" and "strip l \<noteq> []"
  shows "key_ok (takeWhile (\<lambda>c. c \<noteq> EQ) (strip l))"
proof -
  let ?s = "strip l"
  let ?k = "takeWhile (\<lambda>c. c \<noteq> EQ) ?s"
  have sub: "set ?k \<subseteq> set ?s" by (auto dest: set_takeWhileD)
  have "EQ \<notin> set ?k" by (auto dest: set_takeWhileD)
  moreover have "LF \<notin> set ?k" "CR \<notin> set ?k"
    using strip_line_ok [OF assms(1)] sub by auto
  moreover have "?k = [] \<or> \<not> isspace (hd ?k)"
  proof (cases "?k = []")
    case False
    then have "hd ?k = hd ?s" by (cases ?s) (auto split: if_splits)
    moreover have "\<not> isspace (hd ?s)"
      using assms(2) strip_by_ends [of isspace l] by (simp add: strip_def)
    ultimately show ?thesis by simp
  qed simp
  ultimately show ?thesis by (simp add: key_ok_def)
qed

lemma set_tl_subset: "set (tl xs) \<subseteq> set xs"
  by (cases xs) auto

lemma parsed_value_ok:
  assumes "line_ok l"
  shows "value_ok (strip_chars [DQ] (tl (dropWhile (\<lambda>c. c \<noteq> EQ) (strip l))))"
proof -
  define r where "r = tl (dropWhile (\<lambda>c. c \<noteq> EQ) (strip l))"
  define v where "v = strip_chars [DQ] r"
  have "set v \<subseteq> set r"
    unfolding v_def strip_chars_def by (rule strip_by_subset)
  also have "set r \<subseteq> set (dropWhile (\<lambda>c. c \<noteq> EQ) (strip l))"
    unfolding r_def by (rule set_tl_subset)
  also have "\<dots> \<subseteq> set (strip l)"
    by (rule subsetI) (erule set_dropWhileD)
  finally have sub: "set v \<subseteq> set (strip l)" .
  have 1: "LF \<notin> set v" and 2: "CR \<notin> set v"
    using strip_line_ok [OF assms] sub by blast+
  have 3: "v = [] \<or> (hd v \<noteq> DQ \<and> last v \<noteq> DQ)"
  proof (cases "v = []")
    case False
    then have "\<not> hd v \<in> set [DQ] \<and> \<not> last v \<in> set [DQ]"
      unfolding v_def strip_chars_def by (rule strip_by_ends)
    then show ?thesis by simp
  qed simp
  from 1 2 3 show ?thesis
    unfolding value_ok_def v_def r_def by blast
qed

lemma read_env_lines_ok:
  assumes "read_env_lines acc ls = Inr env_vars" and "store_ok acc" and "\<forall>l \<in> set ls. line_ok l"
  shows "store_ok env_vars"
  using assms
proof (induction ls arbitrary: acc)
  case Nil
  then show ?case by simp
next
  case (Cons l ls)
  show ?case
  proof (cases "strip l = []")
    case True
    with Cons show ?thesis by simp
  next
    case False
    show ?thesis
    proof (cases "EQ \<in> set (strip l)")
      case no: False
      with False Cons.prems(1) show ?thesis by (simp add: split_eq_def)
    next
      case True
      let ?k = "takeWhile (\<lambda>c. c \<noteq> EQ) (strip l)"
      let ?v = "strip_chars [DQ] (tl (dropWhile (\<lambda>c. c \<noteq> EQ) (strip l)))"
      from Cons.prems(3) have l: "line_ok l" by simp
      have "store_ok (AList.update ?k ?v acc)"
        using Cons.prems(2) parsed_key_ok [OF l False] parsed_value_ok [OF l]
        by (rule store_ok_update)
      moreover have "read_env_lines (AList.update ?k ?v acc) ls = Inr env_vars"
        using Cons.prems(1) False True by (simp add: split_eq_def)
      ultimately show ?thesis using Cons.IH Cons.prems(3) by simp
    qed
  qed
qed

lemma read_env_file_ok:
  assumes "fst (read_env_file w) = Inr env_vars"
  shows "store_ok env_vars"
proof (cases "env_file w")
  case None
  with assms show ?thesis by (simp add: read_env_file_def store_ok_def)
next
  case (Some content)
  with assms have "read_env_lines [] (readlines [] (universal_newlines content)) = Inr env_vars"
    by (simp add: read_env_file_def split: sum.splits)
  moreover have "\<forall>l \<in> set (readlines [] (universal_newlines content)). line_ok l"
    by (rule readlines_ok) (simp_all add: universal_newlines_no_CR)
  moreover have "store_ok []"
    by (simp add: store_ok_def)
  ultimately show ?thesis
    using read_env_lines_ok [of "[]" "readlines [] (universal_newlines content)" env_vars] by blast
qed

lemma read_env_file_written:
  assumes "store_ok env_vars" and "env_file w = Some (write_env_lines env_vars)"
  shows "fst (read_env_file w) = Inr env_vars"
  using assms read_written_lines [of env_vars "[]"]
  by (simp add: read_env_file_def universal_newlines_id no_CR_write_env_lines)

lemma read_env_file_snd: "snd (read_env_file w) = w"
  by (simp add: read_env_file_def split: option.splits sum.splits)

lemma read_env_file_cong:
  assumes "env_file w' = env_file w"
  shows "fst (read_env_file w') = fst (read_env_file w)"
  using assms by (simp add: read_env_file_def split: option.splits sum.splits)

lemma get_loadbalancer_url_nonempty:
  assumes "fst (get_loadbalancer_url s ns w) = Inr (Some u)"
  shows "u \<noteq> []"
proof (cases "kube_config w \<or> incluster_config w")
  case True
  from get_loadbalancer_url_result [OF True, of s ns] assms show ?thesis
    by (auto simp: truthy_def split: sum.splits exn.splits option.splits list.splits if_splits)
next
  case False
  then have "fst (get_loadbalancer_url s ns w) = Inl ConfigException"
    by (simp add: get_loadbalancer_url_def seq_def load_config_def)
  with assms show ?thesis by simp
qed

lemma configure_resolved:
  assumes "fst (get_loadbalancer_url ''pod-manager-service'' ns w) = Inr (Some u)"
      and "fst (read_env_file w) = Inr env_vars"
  shows "fst (configure_pod_manager_url ns w) = Inr ()
     \<and> env_file (snd (configure_pod_manager_url ns w)) =
         Some (write_env_lines
           (AList.update ''POD_MANAGER_URL'' (''http://'' @ u @ '':8000'') env_vars))"
proof -
  define w1 where "w1 = snd (get_loadbalancer_url ''pod-manager-service'' ns w)"
  have g: "get_loadbalancer_url ''pod-manager-service'' ns w = (Inr (Some u), w1)"
    using assms(1) by (simp add: w1_def prod_eq_iff)
  have u: "u \<noteq> []"
    using assms(1) by (rule get_loadbalancer_url_nonempty)
  have "env_file w1 = env_file w"
    unfolding w1_def using get_loadbalancer_url_frame [of "''pod-manager-service''" ns w] by simp
  then have "fst (read_env_file w1) = Inr env_vars"
    using assms(2) read_env_file_cong [of w1 w] by simp
  then have r: "read_env_file w1 = (Inr env_vars, w1)"
    using read_env_file_snd [of w1] by (simp add: prod_eq_iff)
  have "configure_pod_manager_url ns w =
      seq read_env_file (\<lambda>env_vars.
        seq (write_env_file
               (AList.update ''POD_MANAGER_URL'' (''http://'' @ u @ '':8000'') env_vars))
          (\<lambda>_. logging INFO)) w1"
    unfolding configure_pod_manager_url_def seq_def [of "get_loadbalancer_url _ _"] g
    using u by simp
  also have "\<dots> =
      seq (write_env_file
             (AList.update ''POD_MANAGER_URL'' (''http://'' @ u @ '':8000'') env_vars))
        (\<lambda>_. logging INFO) w1"
    unfolding seq_def [of read_env_file] r by simp
  finally show ?thesis
    by (simp add: seq_def write_env_file_def logging_def)
qed

lemma endpoint_key_ok: "key_ok ''POD_MANAGER_URL''"
  by (simp add: key_ok_def isspace_def)

lemma endpoint_value_ok:
  assumes "LF \<notin> set u" and "CR \<notin> set u"
  shows "value_ok (''http://'' @ u @ '':8000'')"
  using assms by (simp add: value_ok_def)

text \<open>
  Claim C4. When the manager's address \<open>u\<close> is resolved (it holds no line break) and the
  \<^verbatim>\<open>.env\<close> file is absent or is read without error as \<open>env_vars\<close>,
  \<^verbatim>\<open>configure_pod_manager_url\<close> succeeds, and reading the file back with the same loop gives
  \<open>env_vars\<close> with \<^verbatim>\<open>POD_MANAGER_URL\<close> set to \<^verbatim>\<open>http://u:8000\<close>: the value read is exactly
  the value written, and every other key is still there with the value it had.
\<close>

theorem configure_pod_manager_url_merge_roundtrip:
  assumes "fst (get_loadbalancer_url ''pod-manager-service'' ns w) = Inr (Some u)"
      and "LF \<notin> set u" and "CR \<notin> set u"
      and "fst (read_env_file w) = Inr env_vars"
  shows "fst (configure_pod_manager_url ns w) = Inr ()
     \<and> fst (read_env_file (snd (configure_pod_manager_url ns w))) =
         Inr (AList.update ''POD_MANAGER_URL'' (''http://'' @ u @ '':8000'') env_vars)
     \<and> map_of (AList.update ''POD_MANAGER_URL'' (''http://'' @ u @ '':8000'') env_vars)
         ''POD_MANAGER_URL'' = Some (''http://'' @ u @ '':8000'')
     \<and> (\<forall>key. key \<noteq> ''POD_MANAGER_URL'' \<longrightarrow>
           map_of (AList.update ''POD_MANAGER_URL'' (''http://'' @ u @ '':8000'') env_vars) key
             = map_of env_vars key)"
proof -
  let ?new = "AList.update ''POD_MANAGER_URL'' (''http://'' @ u @ '':8000'') env_vars"
  have "store_ok env_vars" using assms(4) by (rule read_env_file_ok)
  then have ok: "store_ok ?new"
    using endpoint_key_ok endpoint_value_ok [OF assms(2,3)] by (rule store_ok_update)
  note c = configure_resolved [OF assms(1,4)]
  have "fst (read_env_file (snd (configure_pod_manager_url ns w))) = Inr ?new"
    using ok c by (intro read_env_file_written) simp_all
  with c show ?thesis by (simp add: update_conv')
qed


lemma stored_world_read:
  "fst (read_env_file stored_world) = Inr [(''A'', ''1''), (''POD_MANAGER_URL'', ''old'')]"
  by (simp add: stored_world_def example_world_def read_env_file_def strip_def isspace_def
        split_eq_def strip_chars_def)

theorem configure_pod_manager_url_merge_roundtrip_witness:
  "fst (get_loadbalancer_url ''pod-manager-service'' ''jac-splice-orc'' stored_world)
       = Inr (Some ''10.0.0.7'')
   \<and> LF \<notin> set ''10.0.0.7'' \<and> CR \<notin> set ''10.0.0.7''
   \<and> fst (read_env_file stored_world) = Inr [(''A'', ''1''), (''POD_MANAGER_URL'', ''old'')]
   \<and> fst (configure_pod_manager_url ''jac-splice-orc'' stored_world) = Inr ()
   \<and> fst (read_env_file (snd (configure_pod_manager_url ''jac-splice-orc'' stored_world)))
       = Inr [(''A'', ''1''), (''POD_MANAGER_URL'', ''http://10.0.0.7:8000'')]"
proof -
  have a: "fst (get_loadbalancer_url ''pod-manager-service'' ''jac-splice-orc'' stored_world)
       = Inr (Some ''10.0.0.7'')"
    by (simp add: stored_world_def eval_defs)
  have b: "LF \<notin> set ''10.0.0.7''" and c: "CR \<notin> set ''10.0.0.7''"
    by simp_all
  note d = stored_world_read
  show ?thesis
    using a b c d configure_pod_manager_url_merge_roundtrip [OF a b c d]
    by simp
qed

end
